theory Spec2Isabelle
  imports Main "HOL-Library.Multiset"
begin

section \<open>JavaScript objects used as dictionaries\<close>

text \<open>
  The server keeps its rooms, and each player's usage statistics, in plain
  JavaScript objects (\<^verbatim>\<open>const rooms = {}\<close>, \<^verbatim>\<open>stats: {}\<close>,
  \<^verbatim>\<open>room.stats[socket.id] = {}\<close>). An object's own properties are modelled as an
  association list in creation order with distinct keys. Two features of the language
  are visible to the handlers and are written out:
  \<^item> \<^verbatim>\<open>Object.keys\<close> and \<^verbatim>\<open>Object.entries\<close> list the keys that are array indices
    (canonical decimal numerals below \<open>2^32 - 1\<close>) first, in ascending numeric order,
    and the remaining string keys after them in creation order;
  \<^item> a property read \<^verbatim>\<open>obj[key]\<close> that finds no own property continues in
    \<^verbatim>\<open>Object.prototype\<close>, whose members are all truthy.
\<close>

type_synonym 'v jsobj = "(string \<times> 'v) list"

definition is_digit :: "char \<Rightarrow> bool" where
  "is_digit c = (c \<in> set ''0123456789'')"

text \<open>The value of a digit is its position in the list of digits.\<close>

definition digit_val :: "char \<Rightarrow> nat" where
  "digit_val c = length (takeWhile (\<lambda>d. d \<noteq> c) ''0123456789'')"

definition decimal_val :: "string \<Rightarrow> nat" where
  "decimal_val s = foldl (\<lambda>n c. 10 * n + digit_val c) 0 s"

text \<open>A canonical numeric string: digits only, no leading zero except for \<open>0\<close> itself.\<close>

definition canonical_numeric :: "string \<Rightarrow> bool" where
  "canonical_numeric s =
     (s \<noteq> [] \<and> list_all is_digit s \<and> (if hd s = CHR ''0'' then s = ''0'' else True))"

definition is_array_index :: "string \<Rightarrow> bool" where
  "is_array_index s = (canonical_numeric s \<and> decimal_val s < 4294967295)"

text \<open>\<^verbatim>\<open>Object.entries(obj)\<close> and \<^verbatim>\<open>Object.keys(obj)\<close>.\<close>

definition object_entries :: "'v jsobj \<Rightarrow> (string \<times> 'v) list" where
  "object_entries obj =
     sort_key (\<lambda>p. decimal_val (fst p)) (filter (\<lambda>p. is_array_index (fst p)) obj)
     @ filter (\<lambda>p. \<not> is_array_index (fst p)) obj"

definition object_keys :: "'v jsobj \<Rightarrow> string list" where
  "object_keys obj = map fst (object_entries obj)"

text \<open>The property names of \<^verbatim>\<open>Object.prototype\<close>.\<close>

definition proto_names :: "string list" where
  "proto_names =
     [''constructor'', ''__defineGetter__'', ''__defineSetter__'', ''hasOwnProperty'',
      ''__lookupGetter__'', ''__lookupSetter__'', ''isPrototypeOf'',
      ''propertyIsEnumerable'', ''toString'', ''valueOf'', ''__proto__'',
      ''toLocaleString'']"

text \<open>The result of a property read \<^verbatim>\<open>obj[key]\<close>.\<close>

datatype 'v property = Undefined | Inherited | Own 'v

definition get_property :: "'v jsobj \<Rightarrow> string \<Rightarrow> 'v property" where
  "get_property obj k =
     (case map_of obj k of
        Some v \<Rightarrow> Own v
      | None \<Rightarrow> if k \<in> set proto_names then Inherited else Undefined)"

text \<open>
  The assignment \<^verbatim>\<open>obj[key] = v\<close> for a key other than \<^verbatim>\<open>__proto__\<close>: an own
  property keeps its place, a new one is appended.
\<close>

fun replace_own :: "string \<Rightarrow> 'v \<Rightarrow> 'v jsobj \<Rightarrow> 'v jsobj" where
  "replace_own k v [] = []"
| "replace_own k v (p # ps) = (if fst p = k then (k, v) # ps else p # replace_own k v ps)"

definition put_own :: "'v jsobj \<Rightarrow> string \<Rightarrow> 'v \<Rightarrow> 'v jsobj" where
  "put_own obj k v = (if k \<in> fst ` set obj then replace_own k v obj else obj @ [(k, v)])"

text \<open>
  The assignment \<^verbatim>\<open>obj[key] = v\<close> of a number or a string under any key. Without
  an own property of that name, \<^verbatim>\<open>__proto__\<close> is the accessor of the prototype,
  whose setter ignores a value that is not an object.
\<close>

definition set_primitive :: "'v jsobj \<Rightarrow> string \<Rightarrow> 'v \<Rightarrow> 'v jsobj" where
  "set_primitive obj k v =
     (if k \<notin> fst ` set obj \<and> k = ''__proto__'' then obj else put_own obj k v)"

text \<open>\<^verbatim>\<open>delete obj[key]\<close>.\<close>

definition delete_property :: "'v jsobj \<Rightarrow> string \<Rightarrow> 'v jsobj" where
  "delete_property obj k = filter (\<lambda>p. fst p \<noteq> k) obj"

section \<open>The deck shuffle of createRoom\<close>

text \<open>
  \<^verbatim>\<open>
  for (let i = allCards.length - 1; i > 0; i--) {
    const j = Math.floor(Math.random() * (i + 1));
    [allCards[i], allCards[j]] = [allCards[j], allCards[i]];
  }
  \<close>
  \<^verbatim>\<open>Math.random()\<close> lies in \<open>[0, 1)\<close>, so \<open>j\<close> is some index in \<open>0..i\<close>. The
  random source is a function \<open>rnd\<close> from the loop index to a natural number, brought
  into that range by \<open>mod (i + 1)\<close>: every sequence of choices the loop can make is
  one such function.
\<close>

definition swap :: "nat \<Rightarrow> nat \<Rightarrow> 'a list \<Rightarrow> 'a list" where
  "swap i j xs = xs[i := xs ! j, j := xs ! i]"

fun shuffle_from :: "(nat \<Rightarrow> nat) \<Rightarrow> nat \<Rightarrow> 'a list \<Rightarrow> 'a list" where
  "shuffle_from rnd 0 xs = xs"
| "shuffle_from rnd (Suc i) xs =
     shuffle_from rnd i (swap (Suc i) (rnd (Suc i) mod (Suc i + 1)) xs)"

definition shuffle :: "(nat \<Rightarrow> nat) \<Rightarrow> 'a list \<Rightarrow> 'a list" where
  "shuffle rnd xs = shuffle_from rnd (length xs - 1) xs"

section \<open>Numbers\<close>

text \<open>
  The counters of the server (points, usage counts, the round count, the parent index)
  are JavaScript numbers, doubles that hold natural numbers. \<^verbatim>\<open>n + 1\<close> is exact
  below \<open>2^53\<close>. From there to \<open>2^54\<close> the doubles are the even numbers and the sum
  lies halfway between two of them; it is rounded to the one whose half is even. From
  \<open>2^54\<close> on the sum is rounded back to \<open>n\<close>.
\<close>

definition js_succ :: "nat \<Rightarrow> nat" where
  "js_succ n =
     (if n < 9007199254740992 then n + 1
      else if n < 18014398509481984 then (if even (n div 2) then n else n + 2)
      else n)"

section \<open>Rooms, players and the server state\<close>

text \<open>
  A player object \<^verbatim>\<open>{ id, name, points }\<close>; \<open>pid\<close> is the field \<^verbatim>\<open>id\<close>, the
  connection identifier of the socket that created or joined the room.
\<close>

record player =
  pid :: string
  name :: string
  points :: nat

text \<open>An entry \<^verbatim>\<open>{ onomatopoeia, playerIds }\<close> of \<^verbatim>\<open>room.onomatopoeiaList\<close>.\<close>

record group =
  onomatopoeia :: string
  playerIds :: "string list"

text \<open>
  A value stored in a usage object \<^verbatim>\<open>room.stats[socket.id]\<close>: a number, or the
  string that \<^verbatim>\<open>(x || 0) + 1\<close> produces once \<open>x\<close> is not a number. Such a string
  starts with the text of a function or object and never reads as a number.
\<close>

datatype tally = Count nat | Text

text \<open>
  A room object. \<^verbatim>\<open>currentTurnPlayerIndex\<close> is a number; \<open>None\<close> is \<^verbatim>\<open>NaN\<close>,
  the result of \<^verbatim>\<open>% 0\<close>. The deck is an array whose last element is drawn next.
\<close>

record room =
  players :: "player list"
  deck :: "string list"
  currentTurnPlayerIndex :: "nat option"
  onomatopoeiaList :: "group list"
  deckName :: string
  currentCard :: "string option"
  roundCount :: nat
  stats :: "tally jsobj jsobj"

text \<open>
  Room objects live in a store and the registry \<^verbatim>\<open>rooms\<close> maps a room id to the
  address of its object: the callback that \<^verbatim>\<open>chooseOnomatopoeia\<close> leaves behind keeps
  the object it captured, also after the registry has dropped or replaced it. A new
  object gets the address \<open>length (heap s)\<close>.
\<close>

record server =
  rooms :: "nat jsobj"
  heap :: "room list"

text \<open>What the handlers emit, with the addressee first where there is one.\<close>

datatype event =
    ErrorEvent string string
  | RoomsList "string list"
  | RoomsListTo string "string list"
  | UpdatePlayers string "player list"
  | UpdateRoomInfo string string
  | GameStarted string "player option"
  | CardDrawn string string
  | OnomatopoeiaList string "group list"
  | OnomatopoeiaChosen string "string list" "player list"
  | NewTurn string "player option"
  | GameOver string "player list" "player list" "(string option \<times> nat) jsobj"

text \<open>
  A handler that throws ends with \<open>Inl (TypeError s)\<close>: nothing in the server catches
  the exception, and \<open>s\<close> is the state at the throw, with the assignments made before
  it. \<open>state_after\<close> is the state a handler leaves behind, thrown or not.
\<close>

datatype failure = TypeError server

type_synonym 'a outcome = "failure + 'a"

definition state_after :: "(server \<times> 'a) outcome \<Rightarrow> server" where
  "state_after res = (case res of Inl (TypeError s) \<Rightarrow> s | Inr (s, x) \<Rightarrow> s)"

text \<open>
  \<^verbatim>\<open>rooms[roomId]\<close>, with the room object read from the store. Registry addresses are
  allocated by createRoom and always lie inside the store; the bound check only makes
  the function total.
\<close>

definition find_room :: "server \<Rightarrow> string \<Rightarrow> (nat \<times> room) property" where
  "find_room s roomId =
     (case get_property (rooms s) roomId of
        Undefined \<Rightarrow> Undefined
      | Inherited \<Rightarrow> Inherited
      | Own a \<Rightarrow> if a < length (heap s) then Own (a, heap s ! a) else Undefined)"

definition store_room :: "server \<Rightarrow> nat \<Rightarrow> room \<Rightarrow> server" where
  "store_room s a r = s\<lparr>heap := (heap s)[a := r]\<rparr>"

text \<open>\<^verbatim>\<open>room.players[room.currentTurnPlayerIndex]\<close>; \<open>None\<close> is \<^verbatim>\<open>undefined\<close>.\<close>

definition player_at :: "player list \<Rightarrow> nat option \<Rightarrow> player option" where
  "player_at ps idx =
     (case idx of
        None \<Rightarrow> None
      | Some i \<Rightarrow> if i < length ps then Some (ps ! i) else None)"

section \<open>createRoom and joinRoom\<close>

text \<open>The file filter \<^verbatim>\<open>/\.(jpg|jpeg|png|gif)$/i\<close>.\<close>

definition to_lower :: "char \<Rightarrow> char" where
  "to_lower c =
     (case map_of (zip ''ABCDEFGHIJKLMNOPQRSTUVWXYZ'' ''abcdefghijklmnopqrstuvwxyz'') c of
        Some l \<Rightarrow> l
      | None \<Rightarrow> c)"

definition has_suffix :: "string \<Rightarrow> string \<Rightarrow> bool" where
  "has_suffix suf s = (length suf \<le> length s \<and> drop (length s - length suf) s = suf)"

definition is_image :: "string \<Rightarrow> bool" where
  "is_image file =
     (let l = map to_lower file
      in has_suffix ''.jpg'' l \<or> has_suffix ''.jpeg'' l \<or> has_suffix ''.png'' l
         \<or> has_suffix ''.gif'' l)"

text \<open>
  \<open>readdir\<close> is \<^verbatim>\<open>fs.readdirSync\<close> on the deck's folder: the file names, or \<open>None\<close>
  when it throws, which the handler catches. \<open>sid\<close> is \<^verbatim>\<open>socket.id\<close>.
\<close>

definition createRoom ::
  "(string \<Rightarrow> string list option) \<Rightarrow> (nat \<Rightarrow> nat) \<Rightarrow> string \<Rightarrow> string \<Rightarrow> string \<Rightarrow> string
   \<Rightarrow> server \<Rightarrow> server \<times> event list" where
  "createRoom readdir rnd sid roomId playerName deckName' s =
     (case get_property (rooms s) roomId of
        Undefined \<Rightarrow>
          (case readdir deckName' of
             None \<Rightarrow> (s, [ErrorEvent sid ''Failed to load deck images''])
           | Some files \<Rightarrow>
               let allCards = shuffle rnd (filter is_image files);
                   r = \<lparr>players = [\<lparr>pid = sid, name = playerName, points = 0\<rparr>],
                        deck = allCards,
                        currentTurnPlayerIndex = Some 0,
                        onomatopoeiaList = [],
                        deckName = deckName',
                        currentCard = None,
                        roundCount = 1,
                        stats = []\<rparr>;
                   s' = \<lparr>rooms = put_own (rooms s) roomId (length (heap s)),
                         heap = heap s @ [r]\<rparr>
               in (s', [RoomsList (object_keys (rooms s')), UpdatePlayers roomId (players r)]))
      | _ \<Rightarrow> (s, [ErrorEvent sid ''Room already exists'']))"

definition joinRoom :: "string \<Rightarrow> string \<Rightarrow> string \<Rightarrow> server \<Rightarrow> (server \<times> event list) outcome" where
  "joinRoom sid roomId playerName s =
     (case find_room s roomId of
        Undefined \<Rightarrow> Inr (s, [ErrorEvent sid ''Room does not exist''])
      | Inherited \<Rightarrow> Inl (TypeError s)
      | Own (a, r) \<Rightarrow>
          if list_ex (\<lambda>p. name p = playerName) (players r)
          then Inr (s, [ErrorEvent sid ''Name already taken in this room''])
          else
            let r' = r\<lparr>players := players r @ [\<lparr>pid = sid, name = playerName, points = 0\<rparr>]\<rparr>
            in Inr (store_room s a r', [UpdatePlayers roomId (players r')]))"

section \<open>endGame\<close>

text \<open>\<^verbatim>\<open>Math.max(...xs)\<close>; \<open>None\<close> is \<^verbatim>\<open>-Infinity\<close>, the maximum of no numbers.\<close>

definition math_max :: "nat list \<Rightarrow> nat option" where
  "math_max xs = (case xs of [] \<Rightarrow> None | x # ys \<Rightarrow> Some (fold max ys x))"

text \<open>
  The scan of one usage object: \<^verbatim>\<open>if (count > topCount) { topCount = count; topWord = word; }\<close>.
  A string count compares as \<^verbatim>\<open>NaN\<close> and is never greater.
\<close>

definition top_step :: "string option \<times> nat \<Rightarrow> string \<times> tally \<Rightarrow> string option \<times> nat" where
  "top_step best e =
     (case snd e of
        Count n \<Rightarrow> if n > snd best then (Some (fst e), n) else best
      | Text \<Rightarrow> best)"

definition top_usage :: "tally jsobj \<Rightarrow> string option \<times> nat" where
  "top_usage usage = foldl top_step (None, 0) (object_entries usage)"

text \<open>\<^verbatim>\<open>room.stats[player.id] || {}\<close>.\<close>

definition usage_of :: "tally jsobj jsobj \<Rightarrow> string \<Rightarrow> tally jsobj" where
  "usage_of st i = (case map_of st i of Some u \<Rightarrow> u | None \<Rightarrow> [])"

definition usage_summary :: "room \<Rightarrow> (string option \<times> nat) jsobj" where
  "usage_summary r =
     foldl (\<lambda>acc p. put_own acc (pid p) (top_usage (usage_of (stats r) (pid p)))) [] (players r)"

definition winners_of :: "player list \<Rightarrow> player list" where
  "winners_of ps = filter (\<lambda>p. Some (points p) = math_max (map points ps)) ps"

definition endGame :: "string \<Rightarrow> server \<Rightarrow> (server \<times> event list) outcome" where
  "endGame roomId s =
     (case find_room s roomId of
        Undefined \<Rightarrow> Inr (s, [])
      | Inherited \<Rightarrow> Inl (TypeError s)
      | Own (a, r) \<Rightarrow>
          Inr (s\<lparr>rooms := delete_property (rooms s) roomId\<rparr>,
               [GameOver roomId (winners_of (players r)) (players r) (usage_summary r)]))"

section \<open>startGame and drawCard\<close>

text \<open>
  \<open>rnd\<close> stands for \<^verbatim>\<open>Math.floor(Math.random() * room.players.length)\<close>, some index
  below the length, and 0 for an empty array.
\<close>

definition startGame :: "nat \<Rightarrow> string \<Rightarrow> server \<Rightarrow> (server \<times> event list) outcome" where
  "startGame rnd roomId s =
     (case find_room s roomId of
        Undefined \<Rightarrow> Inr (s, [])
      | Inherited \<Rightarrow> Inl (TypeError s)
      | Own (a, r) \<Rightarrow>
          let n = length (players r);
              i = (if n = 0 then 0 else rnd mod n);
              r' = r\<lparr>currentTurnPlayerIndex := Some i\<rparr>
          in Inr (store_room s a r',
                  [UpdateRoomInfo roomId (deckName r'),
                   GameStarted roomId (player_at (players r') (currentTurnPlayerIndex r'))]))"

text \<open>
  \<^verbatim>\<open>currentPlayer.id\<close> throws when the index points at no player. An empty deck, or
  a popped card that is the empty string, ends the game.
\<close>

definition drawCard :: "string \<Rightarrow> string \<Rightarrow> server \<Rightarrow> (server \<times> event list) outcome" where
  "drawCard sid roomId s =
     (case find_room s roomId of
        Undefined \<Rightarrow> Inr (s, [])
      | Inherited \<Rightarrow> Inl (TypeError s)
      | Own (a, r) \<Rightarrow>
          (case player_at (players r) (currentTurnPlayerIndex r) of
             None \<Rightarrow> Inl (TypeError s)
           | Some currentPlayer \<Rightarrow>
               if sid \<noteq> pid currentPlayer then Inr (s, [])
               else if deck r = [] then endGame roomId s
               else
                 let card = last (deck r);
                     r1 = r\<lparr>deck := butlast (deck r)\<rparr>
                 in if card = [] then endGame roomId (store_room s a r1)
                    else Inr (store_room s a (r1\<lparr>currentCard := Some card\<rparr>),
                              [CardDrawn roomId card])))"

section \<open>submitOnomatopoeia\<close>

text \<open>
  Connection identifiers are issued by the transport, never chosen by a client, and
  are taken not to name a member of \<^verbatim>\<open>Object.prototype\<close>: a read under one finds
  an own property or nothing. Room ids and answer texts come from clients and are
  unrestricted.

  \<^verbatim>\<open>
  if (!room.stats[socket.id]) { room.stats[socket.id] = {}; }
  room.stats[socket.id][onomatopoeia] = (room.stats[socket.id][onomatopoeia] || 0) + 1;
  \<close>
\<close>

definition next_tally :: "tally property \<Rightarrow> tally" where
  "next_tally v =
     (case v of
        Undefined \<Rightarrow> Count 1
      | Inherited \<Rightarrow> Text
      | Own (Count n) \<Rightarrow> Count (js_succ n)
      | Own Text \<Rightarrow> Text)"

definition record_usage :: "tally jsobj jsobj \<Rightarrow> string \<Rightarrow> string \<Rightarrow> tally jsobj jsobj" where
  "record_usage st sid word =
     (let st1 = (case map_of st sid of None \<Rightarrow> put_own st sid [] | Some u \<Rightarrow> st);
          u = usage_of st1 sid
      in put_own st1 sid (set_primitive u word (next_tally (get_property u word))))"

text \<open>
  \<^verbatim>\<open>
  const group = room.onomatopoeiaList.find(g => g.onomatopoeia === onomatopoeia);
  if (group) {
    if (!group.playerIds.includes(socket.id)) { group.playerIds.push(socket.id); }
  } else {
    room.onomatopoeiaList.push({ onomatopoeia, playerIds: [socket.id] });
  }
  \<close>
\<close>

fun add_submission :: "group list \<Rightarrow> string \<Rightarrow> string \<Rightarrow> group list" where
  "add_submission [] word sid = [\<lparr>onomatopoeia = word, playerIds = [sid]\<rparr>]"
| "add_submission (g # gs) word sid =
     (if onomatopoeia g = word
      then (if sid \<in> set (playerIds g) then g # gs
            else g\<lparr>playerIds := playerIds g @ [sid]\<rparr> # gs)
      else g # add_submission gs word sid)"

definition totalSubmissions :: "group list \<Rightarrow> nat" where
  "totalSubmissions gs = foldl (\<lambda>sum g. sum + length (playerIds g)) 0 gs"

text \<open>
  \<open>connected\<close> is \<^verbatim>\<open>io.sockets.sockets.has\<close>. The audit store is outside the
  server: \<^verbatim>\<open>db.collection("answers").add\<close> is taken to return its promise, and the
  record it writes is not part of the state. \<^verbatim>\<open>room.players.length - 1\<close> is \<open>-1\<close>
  for no players.
\<close>

definition submitOnomatopoeia ::
  "(string \<Rightarrow> bool) \<Rightarrow> string \<Rightarrow> string \<Rightarrow> string \<Rightarrow> server \<Rightarrow> (server \<times> event list) outcome" where
  "submitOnomatopoeia connected sid roomId word s =
     (case find_room s roomId of
        Undefined \<Rightarrow> Inr (s, [])
      | Inherited \<Rightarrow> Inl (TypeError s)
      | Own (a, r) \<Rightarrow>
          let r1 = r\<lparr>stats := record_usage (stats r) sid word\<rparr>;
              r2 = r1\<lparr>onomatopoeiaList := add_submission (onomatopoeiaList r1) word sid\<rparr>;
              expectedCount = int (length (players r2)) - 1
          in if int (totalSubmissions (onomatopoeiaList r2)) = expectedCount
             then (case player_at (players r2) (currentTurnPlayerIndex r2) of
                     None \<Rightarrow> Inl (TypeError (store_room s a r2))
                   | Some parentPlayer \<Rightarrow>
                       Inr (store_room s a r2,
                            if connected (pid parentPlayer)
                            then [OnomatopoeiaList (pid parentPlayer) (onomatopoeiaList r2)]
                            else []))
             else Inr (store_room s a r2, []))"

section \<open>chooseOnomatopoeia, nextTurn, getRooms and disconnect\<close>

text \<open>
  \<^verbatim>\<open>
  group.playerIds.forEach(playerId => {
    const player = room.players.find(p => p.id === playerId);
    if (player) { player.points += 1; chosenNames.push(player.name); }
  });
  \<close>
  \<open>award_first\<close> adds the point to the first player with the given id, if any.
\<close>

fun award_first :: "string \<Rightarrow> player list \<Rightarrow> player list" where
  "award_first playerId [] = []"
| "award_first playerId (p # ps) =
     (if pid p = playerId then p\<lparr>points := js_succ (points p)\<rparr> # ps
      else p # award_first playerId ps)"

fun award_points :: "string list \<Rightarrow> player list \<Rightarrow> string list \<Rightarrow> player list \<times> string list" where
  "award_points [] ps chosenNames = (ps, chosenNames)"
| "award_points (playerId # ids) ps chosenNames =
     (case find (\<lambda>p. pid p = playerId) ps of
        None \<Rightarrow> award_points ids ps chosenNames
      | Some player \<Rightarrow> award_points ids (award_first playerId ps) (chosenNames @ [name player]))"

text \<open>Lines 198 to 210 of the handler: the lookup of the group and the scoring loop.\<close>

definition score_choice :: "room \<Rightarrow> string \<Rightarrow> player list \<times> string list" where
  "score_choice r selectedOnomatopoeia =
     (case find (\<lambda>item. onomatopoeia item = selectedOnomatopoeia) (onomatopoeiaList r) of
        None \<Rightarrow> (players r, [])
      | Some g \<Rightarrow> award_points (playerIds g) (players r) [])"

text \<open>
  The synchronous part of the handler. \<^verbatim>\<open>parentPlayer.id\<close> throws when the index
  points at no player. On success the handler leaves a callback behind, run when the
  write to the audit store has settled; it holds the room object (its address) and the
  chosen names.
\<close>

definition chooseOnomatopoeia ::
  "string \<Rightarrow> string \<Rightarrow> server \<Rightarrow> (server \<times> (nat \<times> string list) option) outcome" where
  "chooseOnomatopoeia roomId selectedOnomatopoeia s =
     (case find_room s roomId of
        Undefined \<Rightarrow> Inr (s, None)
      | Inherited \<Rightarrow> Inl (TypeError s)
      | Own (a, r) \<Rightarrow>
          let (ps, chosenNames) = score_choice r selectedOnomatopoeia;
              r' = r\<lparr>players := ps\<rparr>
          in (case player_at (players r') (currentTurnPlayerIndex r') of
                None \<Rightarrow> Inl (TypeError (store_room s a r'))
              | Some parentPlayer \<Rightarrow> Inr (store_room s a r', Some (a, chosenNames))))"

text \<open>\<^verbatim>\<open>(room.currentTurnPlayerIndex + 1) % room.players.length\<close>.\<close>

definition next_index :: "nat option \<Rightarrow> nat \<Rightarrow> nat option" where
  "next_index idx n =
     (case idx of
        None \<Rightarrow> None
      | Some i \<Rightarrow> if n = 0 then None else Some (js_succ i mod n))"

text \<open>
  The callback given to \<^verbatim>\<open>finally\<close>, on the captured room object at address \<open>a\<close>.
  Captured addresses are allocated; the bound check only makes the function total.
\<close>

definition chooseOnomatopoeia_finally ::
  "string \<Rightarrow> nat \<Rightarrow> string list \<Rightarrow> server \<Rightarrow> (server \<times> event list) outcome" where
  "chooseOnomatopoeia_finally roomId a chosenNames s =
     (if a < length (heap s) then
        let r = heap s ! a;
            chosen = OnomatopoeiaChosen roomId chosenNames (players r);
            r1 = r\<lparr>onomatopoeiaList := []\<rparr>
        in if deck r1 = []
           then (case endGame roomId (store_room s a r1) of
                   Inl e \<Rightarrow> Inl e
                 | Inr (s', evs) \<Rightarrow> Inr (s', chosen # evs))
           else
             let r2 = r1\<lparr>currentTurnPlayerIndex :=
                          next_index (currentTurnPlayerIndex r1) (length (players r1)),
                        roundCount := js_succ (roundCount r1)\<rparr>
             in Inr (store_room s a r2,
                     [chosen, NewTurn roomId (player_at (players r2) (currentTurnPlayerIndex r2))])
      else Inr (s, []))"

text \<open>
  The handler followed at once by its callback, no other event in between: the
  operation chooseAnswer of the specification.
\<close>

definition chooseAnswer :: "string \<Rightarrow> string \<Rightarrow> server \<Rightarrow> (server \<times> event list) outcome" where
  "chooseAnswer roomId selectedOnomatopoeia s =
     (case chooseOnomatopoeia roomId selectedOnomatopoeia s of
        Inl e \<Rightarrow> Inl e
      | Inr (s1, None) \<Rightarrow> Inr (s1, [])
      | Inr (s1, Some (a, chosenNames)) \<Rightarrow> chooseOnomatopoeia_finally roomId a chosenNames s1)"

text \<open>
  Under an inherited name the handler assigns to an object outside the registry and then
  throws on \<^verbatim>\<open>room.players.length\<close>; the rooms are as before.
\<close>

definition nextTurn :: "string \<Rightarrow> server \<Rightarrow> (server \<times> event list) outcome" where
  "nextTurn roomId s =
     (case find_room s roomId of
        Undefined \<Rightarrow> Inr (s, [])
      | Inherited \<Rightarrow> Inl (TypeError s)
      | Own (a, r) \<Rightarrow>
          let r1 = r\<lparr>onomatopoeiaList := []\<rparr>;
              r2 = r1\<lparr>currentTurnPlayerIndex :=
                         next_index (currentTurnPlayerIndex r1) (length (players r1)),
                       roundCount := js_succ (roundCount r1)\<rparr>
          in Inr (store_room s a r2,
                  [NewTurn roomId (player_at (players r2) (currentTurnPlayerIndex r2))]))"

definition getRooms :: "string \<Rightarrow> server \<Rightarrow> event list" where
  "getRooms sid s = [RoomsListTo sid (object_keys (rooms s))]"

text \<open>
  The body of the loop \<^verbatim>\<open>Object.keys(rooms).forEach(roomId => ...)\<close> of the
  disconnect handler. The keys were read before the loop and each names a room; only
  the room of the current step is deleted.
\<close>

definition disconnect_room :: "string \<Rightarrow> server \<times> event list \<Rightarrow> string \<Rightarrow> server \<times> event list" where
  "disconnect_room sid acc roomId =
     (let s = fst acc; evs = snd acc
      in case find_room s roomId of
           Own (a, r) \<Rightarrow>
             let r' = r\<lparr>players := filter (\<lambda>p. pid p \<noteq> sid) (players r)\<rparr>;
                 s1 = store_room s a r'
             in if players r' = []
                then let s2 = s1\<lparr>rooms := delete_property (rooms s1) roomId\<rparr>
                     in (s2, evs @ [RoomsList (object_keys (rooms s2))])
                else (s1, evs @ [UpdatePlayers roomId (players r')])
         | _ \<Rightarrow> acc)"

definition disconnect :: "string \<Rightarrow> server \<Rightarrow> server \<times> event list" where
  "disconnect sid s = foldl (disconnect_room sid) (s, []) (object_keys (rooms s))"

section \<open>Reference formulations\<close>

text \<open>
  A usage object whose counts are all numbers, given by its texts and counts, and the
  entry a scan of such texts and counts should report: the first one that carries the
  greatest count.
\<close>

definition counted :: "(string \<times> nat) list \<Rightarrow> tally jsobj" where
  "counted es = map (\<lambda>e. (fst e, Count (snd e))) es"

definition first_with_greatest :: "(string \<times> nat) list \<Rightarrow> string option \<times> nat" where
  "first_with_greatest es =
     (let m = fold max (map snd es) 0
      in (if m = 0 then None else map_option fst (find (\<lambda>e. snd e = m) es), m))"

section \<open>Sequences of events and the order of creation\<close>

text \<open>
  The events a client or the transport can send, with the value drawn from the random
  source where the handler draws one. \<open>Settled\<close> is the callback that
  chooseOnomatopoeia left behind, run at some later point.
\<close>

datatype inbound =
    CreateRoom "nat \<Rightarrow> nat" string string string string
  | JoinRoom string string string
  | StartGame nat string
  | DrawCard string string
  | SubmitOnomatopoeia string string string
  | ChooseOnomatopoeia string string
  | Settled string nat "string list"
  | NextTurn string
  | Disconnect string

text \<open>The state one event leaves behind.\<close>

definition handle ::
  "(string \<Rightarrow> string list option) \<Rightarrow> (string \<Rightarrow> bool) \<Rightarrow> inbound \<Rightarrow> server \<Rightarrow> server" where
  "handle readdir connected e s =
     (case e of
        CreateRoom rnd sid roomId playerName dn \<Rightarrow>
          fst (createRoom readdir rnd sid roomId playerName dn s)
      | JoinRoom sid roomId playerName \<Rightarrow> state_after (joinRoom sid roomId playerName s)
      | StartGame rnd roomId \<Rightarrow> state_after (startGame rnd roomId s)
      | DrawCard sid roomId \<Rightarrow> state_after (drawCard sid roomId s)
      | SubmitOnomatopoeia sid roomId word \<Rightarrow>
          state_after (submitOnomatopoeia connected sid roomId word s)
      | ChooseOnomatopoeia roomId word \<Rightarrow> state_after (chooseOnomatopoeia roomId word s)
      | Settled roomId a chosenNames \<Rightarrow>
          state_after (chooseOnomatopoeia_finally roomId a chosenNames s)
      | NextTurn roomId \<Rightarrow> state_after (nextTurn roomId s)
      | Disconnect sid \<Rightarrow> fst (disconnect sid s))"

text \<open>
  The rooms in order of creation, kept beside the state: an id is added at the end when
  a createRoom registers it, and dropped when it is no longer registered. The place of
  an id in the registry plays no part.
\<close>

definition registered :: "server \<Rightarrow> string \<Rightarrow> bool" where
  "registered s k = (k \<in> fst ` set (rooms s))"

definition created_by :: "inbound \<Rightarrow> server \<Rightarrow> server \<Rightarrow> string list" where
  "created_by e s s' =
     (case e of
        CreateRoom rnd sid roomId playerName dn \<Rightarrow>
          if registered s' roomId \<and> \<not> registered s roomId then [roomId] else []
      | _ \<Rightarrow> [])"

fun run ::
  "(string \<Rightarrow> string list option) \<Rightarrow> (string \<Rightarrow> bool) \<Rightarrow> inbound list
   \<Rightarrow> server \<times> string list \<Rightarrow> server \<times> string list" where
  "run readdir connected [] acc = acc"
| "run readdir connected (e # es) acc =
     (let s = fst acc;
          s' = handle readdir connected e s
      in run readdir connected es
           (s', filter (registered s') (snd acc @ created_by e s s')))"

text \<open>The server started empty: its state and its rooms in order of creation.\<close>

definition final_state ::
  "(string \<Rightarrow> string list option) \<Rightarrow> (string \<Rightarrow> bool) \<Rightarrow> inbound list \<Rightarrow> server" where
  "final_state readdir connected es = fst (run readdir connected es (\<lparr>rooms = [], heap = []\<rparr>, []))"

definition rooms_by_creation ::
  "(string \<Rightarrow> string list option) \<Rightarrow> (string \<Rightarrow> bool) \<Rightarrow> inbound list \<Rightarrow> string list" where
  "rooms_by_creation readdir connected es =
     snd (run readdir connected es (\<lparr>rooms = [], heap = []\<rparr>, []))"

section \<open>Example states\<close>

definition empty_server :: server where
  "empty_server = \<lparr>rooms = [], heap = []\<rparr>"

definition deck_files :: "string \<Rightarrow> string list option" where
  "deck_files d = (if d = ''animals'' then Some [''cat.png'', ''notes.txt'', ''dog.JPG''] else None)"

definition pick_first :: "nat \<Rightarrow> nat" where
  "pick_first i = 0"

definition all_connected :: "string \<Rightarrow> bool" where
  "all_connected i = True"

text \<open>Socket \<open>s1\<close> creates room \<open>b\<close>, then socket \<open>s2\<close> creates room \<open>1\<close>.\<close>

definition room_b_then_room_1 :: "inbound list" where
  "room_b_then_room_1 =
     [CreateRoom pick_first ''s1'' ''b'' ''ann'' ''animals'',
      CreateRoom pick_first ''s2'' ''1'' ''bob'' ''animals'']"

text \<open>
  Rooms \<open>b\<close>, \<open>c\<close> and \<open>a\<close> are created in this order, and the creator of
  \<open>c\<close> disconnects.
\<close>

definition rooms_b_c_a_without_c :: "inbound list" where
  "rooms_b_c_a_without_c =
     [CreateRoom pick_first ''s1'' ''b'' ''ann'' ''animals'',
      CreateRoom pick_first ''s2'' ''c'' ''bob'' ''animals'',
      CreateRoom pick_first ''s3'' ''a'' ''cy'' ''animals'',
      Disconnect ''s2'']"

text \<open>Socket \<open>B\<close> submits \<open>b\<close> and then \<open>1\<close>, each once.\<close>

definition stats_b_then_1 :: "tally jsobj jsobj" where
  "stats_b_then_1 = record_usage (record_usage [] ''B'' ''b'') ''B'' ''1''"

text \<open>A room with the given players, deck, parent index, groups and statistics.\<close>

definition make_player :: "string \<Rightarrow> string \<Rightarrow> nat \<Rightarrow> player" where
  "make_player i n k = \<lparr>pid = i, name = n, points = k\<rparr>"

definition make_room ::
  "player list \<Rightarrow> string list \<Rightarrow> nat option \<Rightarrow> group list \<Rightarrow> tally jsobj jsobj \<Rightarrow> room" where
  "make_room ps d i gs st =
     \<lparr>players = ps, deck = d, currentTurnPlayerIndex = i, onomatopoeiaList = gs,
      deckName = ''animals'', currentCard = None, roundCount = 1, stats = st\<rparr>"

text \<open>The room that createRoom makes from the deck \<open>animals\<close>.\<close>

definition fresh_room :: "string \<Rightarrow> string \<Rightarrow> room" where
  "fresh_room sid n = make_room [make_player sid n 0] [''dog.JPG'', ''cat.png''] (Some 0) [] []"

text \<open>The server with one room, registered as \<open>r\<close>.\<close>

definition server_of :: "room \<Rightarrow> server" where
  "server_of r = \<lparr>rooms = [(''r'', 0)], heap = [r]\<rparr>"

text \<open>Socket \<open>s1\<close> has created room \<open>b\<close>.\<close>

definition room_b_only :: server where
  "room_b_only = fst (createRoom deck_files pick_first ''s1'' ''b'' ''ann'' ''animals'' empty_server)"

section \<open>Reference formulations for the scoring\<close>

text \<open>The position of the first player with the given id; the length if there is none.\<close>

definition position_of :: "string \<Rightarrow> player list \<Rightarrow> nat" where
  "position_of i ps = length (takeWhile (\<lambda>p. pid p \<noteq> i) ps)"

text \<open>
  Ann is the parent, Bob and Cy have both submitted \<open>boing\<close>, and the deck is used up.
\<close>

definition boing_room :: room where
  "boing_room =
     make_room [make_player ''A'' ''ann'' 0, make_player ''B'' ''bob'' 0, make_player ''C'' ''cy'' 0]
       [] (Some 0) [\<lparr>onomatopoeia = ''boing'', playerIds = [''B'', ''C'']\<rparr>] []"

text \<open>
  A sequence of submissions \<open>(socket, text)\<close> to one room, in order, with the events
  of each submission.
\<close>

fun submit_all ::
  "(string \<Rightarrow> bool) \<Rightarrow> string \<Rightarrow> (string \<times> string) list \<Rightarrow> server
   \<Rightarrow> (server \<times> event list list) outcome" where
  "submit_all connected roomId [] s = Inr (s, [])"
| "submit_all connected roomId (sub # rest) s =
     (case submitOnomatopoeia connected (fst sub) roomId (snd sub) s of
        Inl e \<Rightarrow> Inl e
      | Inr (s1, evs) \<Rightarrow>
          (case submit_all connected roomId rest s1 of
             Inl e \<Rightarrow> Inl e
           | Inr (s2, evss) \<Rightarrow> Inr (s2, evs # evss)))"

text \<open>One handler after another, stopping at the first that throws.\<close>

definition and_then ::
  "(server \<times> event list) outcome \<Rightarrow> (server \<Rightarrow> (server \<times> event list) outcome)
   \<Rightarrow> (server \<times> event list) outcome" where
  "and_then res handler =
     (case res of
        Inl e \<Rightarrow> Inl e
      | Inr (s, evs) \<Rightarrow>
          (case handler s of
             Inl e \<Rightarrow> Inl e
           | Inr (s', evs') \<Rightarrow> Inr (s', evs @ evs')))"

text \<open>
  Socket \<open>A\<close> creates room \<open>r\<close> as Ann, socket \<open>B\<close> joins as Bob, and in the
  lobby of three socket \<open>C\<close> joins as Cy.
\<close>

definition lobby_of_two :: "(server \<times> event list) outcome" where
  "lobby_of_two =
     and_then (Inr (createRoom deck_files pick_first ''A'' ''r'' ''ann'' ''animals'' empty_server))
       (joinRoom ''B'' ''r'' ''bob'')"

definition lobby_of_three :: "(server \<times> event list) outcome" where
  "lobby_of_three = and_then lobby_of_two (joinRoom ''C'' ''r'' ''cy'')"

text \<open>The game starts with Ann as the parent, and Ann draws a card.\<close>

definition duo_game :: "(server \<times> event list) outcome" where
  "duo_game = and_then (and_then lobby_of_two (startGame 0 ''r'')) (drawCard ''A'' ''r'')"

definition trio_game :: "(server \<times> event list) outcome" where
  "trio_game = and_then (and_then lobby_of_three (startGame 0 ''r'')) (drawCard ''A'' ''r'')"

text \<open>The game of two starts with Bob, the second player, as the parent.\<close>

definition bob_parent_game :: "(server \<times> event list) outcome" where
  "bob_parent_game = and_then lobby_of_two (startGame 1 ''r'')"

text \<open>
  The game of three starts with Cy, the third player, as the parent; Cy draws a card
  and Ann submits \<open>boing\<close>.
\<close>

definition cy_parent_game :: "(server \<times> event list) outcome" where
  "cy_parent_game =
     and_then (and_then (and_then lobby_of_three (startGame 2 ''r'')) (drawCard ''C'' ''r''))
       (submitOnomatopoeia all_connected ''A'' ''r'' ''boing'')"

text \<open>The rooms these games arrive at.\<close>

definition trio_room :: room where
  "trio_room =
     (make_room [make_player ''A'' ''ann'' 0, make_player ''B'' ''bob'' 0, make_player ''C'' ''cy'' 0]
        [''dog.JPG''] (Some 0) [] [])\<lparr>currentCard := Some ''cat.png''\<rparr>"

definition duo_room :: room where
  "duo_room =
     (make_room [make_player ''A'' ''ann'' 0, make_player ''B'' ''bob'' 0]
        [''dog.JPG''] (Some 0) [] [])\<lparr>currentCard := Some ''cat.png''\<rparr>"

definition bob_parent_room :: room where
  "bob_parent_room =
     make_room [make_player ''A'' ''ann'' 0, make_player ''B'' ''bob'' 0]
       [''dog.JPG'', ''cat.png''] (Some 1) [] []"

definition cy_parent_room :: room where
  "cy_parent_room =
     (make_room [make_player ''A'' ''ann'' 0, make_player ''B'' ''bob'' 0, make_player ''C'' ''cy'' 0]
        [''dog.JPG''] (Some 2) [\<lparr>onomatopoeia = ''boing'', playerIds = [''A'']\<rparr>]
        [(''A'', [(''boing'', Count 1)])])\<lparr>currentCard := Some ''cat.png''\<rparr>"

text \<open>
  The game of three with Cy the parent: Cy draws both cards, Ann and Bob submit
  \<open>boing\<close>, and Cy disconnects. The room this arrives at has an empty deck.
\<close>

definition cy_leaves_game :: "(server \<times> event list) outcome" where
  "cy_leaves_game =
     and_then
       (and_then
          (and_then
             (and_then
                (and_then (and_then lobby_of_three (startGame 2 ''r'')) (drawCard ''C'' ''r''))
                (drawCard ''C'' ''r''))
             (submitOnomatopoeia all_connected ''A'' ''r'' ''boing''))
          (submitOnomatopoeia all_connected ''B'' ''r'' ''boing''))
       (\<lambda>s. Inr (disconnect ''C'' s))"

definition cy_left_room :: room where
  "cy_left_room =
     (make_room [make_player ''A'' ''ann'' 0, make_player ''B'' ''bob'' 0] [] (Some 2)
        [\<lparr>onomatopoeia = ''boing'', playerIds = [''A'', ''B'']\<rparr>]
        [(''A'', [(''boing'', Count 1)]), (''B'', [(''boing'', Count 1)])])
     \<lparr>currentCard := Some ''dog.JPG''\<rparr>"

text \<open>The parent index of a room points at one of its players.\<close>

definition index_valid :: "room \<Rightarrow> bool" where
  "index_valid r =
     (case currentTurnPlayerIndex r of None \<Rightarrow> False | Some i \<Rightarrow> i < length (players r))"

text \<open>The names of the players found for the given ids, in order; absent ids give none.\<close>

definition present_names :: "string list \<Rightarrow> player list \<Rightarrow> string list" where
  "present_names ids ps = List.map_filter (\<lambda>i. map_option name (find (\<lambda>p. pid p = i) ps)) ids"

section \<open>Properties of the shuffle\<close>

lemma length_swap: "length (swap i j xs) = length xs"
  by (simp add: swap_def)

lemma mset_swap_in_range:
  "i < length xs \<Longrightarrow> j < length xs \<Longrightarrow> mset (swap i j xs) = mset xs"
  unfolding swap_def by (rule mset_swap)

lemma shuffle_from_perm:
  "i < length xs \<or> xs = [] \<Longrightarrow>
   length (shuffle_from rnd i xs) = length xs \<and> mset (shuffle_from rnd i xs) = mset xs"
proof (induction i arbitrary: xs)
  case 0
  show ?case by simp
next
  case (Suc i)
  show ?case
  proof (cases "xs = []")
    case True
    then show ?thesis by (simp add: swap_def Suc.IH)
  next
    case False
    with Suc.prems have lt: "Suc i < length xs" by simp
    have jlt: "rnd (Suc i) mod (Suc i + 1) < length xs"
    proof -
      have "rnd (Suc i) mod (Suc i + 1) < Suc i + 1" by simp
      with lt show ?thesis by linarith
    qed
    let ?ys = "swap (Suc i) (rnd (Suc i) mod (Suc i + 1)) xs"
    have len: "length ?ys = length xs" by (rule length_swap)
    have ms: "mset ?ys = mset xs" using lt jlt by (rule mset_swap_in_range)
    have "i < length ?ys \<or> ?ys = []" using lt len by simp
    from Suc.IH [OF this] show ?thesis using len ms by simp
  qed
qed

text \<open>
  Claim C5. For every deck and every sequence of random choices, the shuffled deck has
  the length of the input and the same multiset of elements; the empty and the singleton
  deck are included.
\<close>

theorem shuffle_is_permutation:
  "length (shuffle rnd D) = length D \<and> mset (shuffle rnd D) = mset D"
proof -
  have "length D - 1 < length D \<or> D = []" by (cases D) simp_all
  from shuffle_from_perm [OF this] show ?thesis by (simp add: shuffle_def)
qed

section \<open>Key order of objects\<close>

lemma map_fst_insort_key:
  "map fst (insort_key (\<lambda>p. f (fst p)) x xs) = insort_key f (fst x) (map fst xs)"
  by (induction xs) simp_all

lemma map_fst_sort_key:
  "map fst (sort_key (\<lambda>p. f (fst p)) xs) = sort_key f (map fst xs)"
  by (induction xs) (simp_all add: map_fst_insort_key)

lemma object_keys_eq:
  "object_keys obj =
     sort_key decimal_val (filter is_array_index (map fst obj))
     @ filter (\<lambda>k. \<not> is_array_index k) (map fst obj)"
  by (simp add: object_keys_def object_entries_def map_fst_sort_key filter_map comp_def)

lemma object_entries_plain:
  assumes "list_all (\<lambda>p. \<not> is_array_index (fst p)) obj"
  shows "object_entries obj = obj"
proof -
  from assms have a: "\<forall>p\<in>set obj. \<not> is_array_index (fst p)" by (simp add: list_all_iff)
  then have "filter (\<lambda>p. is_array_index (fst p)) obj = []" by (simp add: filter_False)
  moreover from a have "filter (\<lambda>p. \<not> is_array_index (fst p)) obj = obj" by (simp add: filter_True)
  ultimately show ?thesis by (simp add: object_entries_def)
qed

lemmas array_index_simps =
  is_array_index_def canonical_numeric_def is_digit_def decimal_val_def digit_val_def

lemmas object_simps =
  object_keys_def object_entries_def get_property_def proto_names_def put_own_def
  set_primitive_def delete_property_def

lemmas fixture_simps =
  empty_server_def deck_files_def pick_first_def all_connected_def make_player_def
  make_room_def server_of_def

section \<open>The scan for the top word\<close>

lemma fold_max_ge: "c \<le> fold max xs (c::nat)"
proof (induction xs arbitrary: c)
  case Nil show ?case by simp
next
  case (Cons x xs)
  have "c \<le> max x c" by simp
  also have "\<dots> \<le> fold max xs (max x c)" by (rule Cons.IH)
  finally show ?case by simp
qed

text \<open>
  The scan of counts that are numbers, started from any current best: the count grows
  to the greatest count seen, and the word changes only when the count does, to the
  first entry that carries the final count.
\<close>

lemma scan_from:
  "foldl top_step (w0, c0) (counted es) =
     (let m = fold max (map snd es) c0
      in (if m = c0 then w0 else map_option fst (find (\<lambda>e. snd e = m) es), m))"
proof (induction es arbitrary: w0 c0)
  case Nil
  show ?case by (simp add: counted_def)
next
  case (Cons e es)
  obtain w n where e: "e = (w, n)" by (cases e)
  have cs: "counted (e # es) = (w, Count n) # counted es"
    by (simp add: counted_def e)
  show ?case
  proof (cases "n > c0")
    case True
    then have mx: "max n c0 = n" by simp
    have step: "foldl top_step (w0, c0) (counted (e # es)) = foldl top_step (Some w, n) (counted es)"
      using True by (simp add: cs top_step_def)
    have ge: "n \<le> fold max (map snd es) n" by (rule fold_max_ge)
    show ?thesis
      unfolding step Cons.IH using True ge
      by (auto simp add: Let_def mx e)
  next
    case False
    then have mx: "max n c0 = c0" by simp
    have step: "foldl top_step (w0, c0) (counted (e # es)) = foldl top_step (w0, c0) (counted es)"
      using False by (simp add: cs top_step_def)
    have ge: "c0 \<le> fold max (map snd es) c0" by (rule fold_max_ge)
    show ?thesis
      unfolding step Cons.IH using False ge
      by (auto simp add: Let_def mx e)
  qed
qed

lemma insort_key_counted:
  "insort_key (\<lambda>p. f (fst p)) (fst e, Count (snd e)) (counted es)
     = counted (insort_key (\<lambda>p. f (fst p)) e es)"
  by (induction es) (simp_all add: counted_def)

lemma sort_key_counted:
  "sort_key (\<lambda>p. f (fst p)) (counted es) = counted (sort_key (\<lambda>p. f (fst p)) es)"
proof (induction es)
  case Nil
  show ?case by (simp add: counted_def)
next
  case (Cons e es)
  have "counted (e # es) = (fst e, Count (snd e)) # counted es" by (simp add: counted_def)
  then show ?case by (simp add: Cons.IH insort_key_counted)
qed

lemma filter_counted:
  "filter (\<lambda>p. P (fst p)) (counted es) = counted (filter (\<lambda>p. P (fst p)) es)"
  by (induction es) (simp_all add: counted_def)

lemma object_entries_counted: "object_entries (counted es) = counted (object_entries es)"
proof -
  have "counted (xs @ ys) = counted xs @ counted ys" for xs ys
    by (simp add: counted_def)
  then show ?thesis
    by (simp add: object_entries_def sort_key_counted filter_counted [of is_array_index]
        filter_counted [of "\<lambda>k. \<not> is_array_index k"])
qed

lemma top_usage_counted: "top_usage (counted es) = first_with_greatest (object_entries es)"
  by (simp add: top_usage_def first_with_greatest_def object_entries_counted scan_from)

lemma map_of_replace_own:
  "k \<in> set (map fst obj) \<Longrightarrow>
   map_of (replace_own k v obj) x = (if x = k then Some v else map_of obj x)"
  by (induction obj) (fastforce simp add: image_iff)+

lemma map_of_put_own: "map_of (put_own obj k v) = (map_of obj)(k \<mapsto> v)"
proof (cases "k \<in> fst ` set obj")
  case True
  then show ?thesis by (simp add: put_own_def map_of_replace_own fun_eq_iff)
next
  case False
  then have "map_of obj k = None" by (simp add: map_of_eq_None_iff)
  then show ?thesis using False
    by (auto simp add: put_own_def fun_eq_iff map_add_def split: option.splits)
qed

lemma map_of_summary_fold:
  "map_of (foldl (\<lambda>acc p. put_own acc (pid p) (f (pid p))) acc0 ps) k =
     (if k \<in> pid ` set ps then Some (f k) else map_of acc0 k)"
  by (induction ps arbitrary: acc0) (auto simp add: map_of_put_own)

lemma usage_summary_player:
  "p \<in> set (players r) \<Longrightarrow>
   map_of (usage_summary r) (pid p) = Some (top_usage (usage_of (stats r) (pid p)))"
  unfolding usage_summary_def
  by (simp add: map_of_summary_fold [where f = "\<lambda>i. top_usage (usage_of (stats r) i)"])

lemma endGame_own:
  "find_room s roomId = Own (a, r) \<Longrightarrow>
   endGame roomId s =
     Inr (s\<lparr>rooms := delete_property (rooms s) roomId\<rparr>,
          [GameOver roomId (winners_of (players r)) (players r) (usage_summary r)])"
  by (simp add: endGame_def)

text \<open>
  Claim C9, as stated, fails: socket \<open>B\<close> submits \<open>b\<close> first and \<open>1\<close> second, once
  each, and the scan reports \<open>1\<close>.
\<close>

theorem top_word_first_seen_counterexample:
  "usage_of stats_b_then_1 ''B'' = [(''b'', Count 1), (''1'', Count 1)]
   \<and> top_usage (usage_of stats_b_then_1 ''B'') = (Some ''1'', 1)"
  by (simp add: stats_b_then_1_def record_usage_def usage_of_def next_tally_def top_usage_def
      top_step_def js_succ_def Let_def object_simps array_index_simps)

text \<open>
  Claim C9, amended. For every player of the room whose usage entry holds numbers
  only, endGame reports the first entry, in the order of \<^verbatim>\<open>Object.entries\<close>, that
  carries the greatest count. That order puts the texts that are array indices first,
  ascending, and the other texts after them as first seen; with no such text in the
  entry, the first-seen text wins a tie. A player with no recorded submissions gets no
  top word and the count 0.
\<close>

theorem endGame_top_word:
  assumes "find_room s roomId = Own (a, r)" and "p \<in> set (players r)"
    and "usage_of (stats r) (pid p) = counted es"
  shows "endGame roomId s =
           Inr (s\<lparr>rooms := delete_property (rooms s) roomId\<rparr>,
                [GameOver roomId (winners_of (players r)) (players r) (usage_summary r)])
         \<and> map_of (usage_summary r) (pid p) = Some (first_with_greatest (object_entries es))
         \<and> (list_all (\<lambda>e. \<not> is_array_index (fst e)) es
              \<longrightarrow> map_of (usage_summary r) (pid p) = Some (first_with_greatest es))
         \<and> (map_of (stats r) (pid p) = None
              \<longrightarrow> map_of (usage_summary r) (pid p) = Some (None, 0))"
proof -
  have sm: "map_of (usage_summary r) (pid p) = Some (first_with_greatest (object_entries es))"
    using assms(2) by (simp add: usage_summary_player assms(3) top_usage_counted)
  have none: "map_of (stats r) (pid p) = None \<Longrightarrow> first_with_greatest (object_entries es) = (None, 0)"
  proof -
    assume "map_of (stats r) (pid p) = None"
    then have "counted es = []" using assms(3) by (simp add: usage_of_def)
    then have "es = []" by (simp add: counted_def)
    then show ?thesis by (simp add: object_entries_def first_with_greatest_def)
  qed
  show ?thesis
    using endGame_own [OF assms(1)] sm none by (auto simp add: object_entries_plain)
qed

theorem endGame_top_word_witness:
  "usage_summary
      (make_room [make_player ''A'' ''ann'' 0, make_player ''B'' ''bob'' 0] [] (Some 0) []
         [(''B'', [(''boing'', Count 2), (''zap'', Count 2)])])
     = [(''A'', None, 0), (''B'', Some ''boing'', 2)]
   \<and> map_of (usage_summary
      (make_room [make_player ''A'' ''ann'' 0, make_player ''B'' ''bob'' 0] [] (Some 0) []
         [(''B'', [(''boing'', Count 2), (''zap'', Count 2)])])) ''B''
     = Some (Some ''boing'', 2)
   \<and> map_of (usage_summary
      (make_room [make_player ''A'' ''ann'' 0, make_player ''B'' ''bob'' 0] [] (Some 0) []
         [(''B'', [(''boing'', Count 2), (''zap'', Count 2)])])) ''A''
     = Some (None, 0)"
proof -
  let ?r = "make_room [make_player ''A'' ''ann'' 0, make_player ''B'' ''bob'' 0] [] (Some 0) []
              [(''B'', [(''boing'', Count 2), (''zap'', Count 2)])]"
  let ?A = "make_player ''A'' ''ann'' 0"
  let ?B = "make_player ''B'' ''bob'' 0"
  have f: "find_room (server_of ?r) ''r'' = Own (0, ?r)"
    by (simp add: find_room_def server_of_def get_property_def)
  have b: "?B \<in> set (players ?r)" and a: "?A \<in> set (players ?r)"
    by (simp_all add: make_room_def)
  have ids: "pid ?A = ''A''" "pid ?B = ''B''"
    by (simp_all add: make_player_def)
  have ub: "usage_of (stats ?r) (pid ?B) = counted [(''boing'', 2), (''zap'', 2)]"
    by (simp add: ids make_room_def usage_of_def counted_def)
  have ua: "usage_of (stats ?r) (pid ?A) = counted []"
    by (simp add: ids make_room_def usage_of_def counted_def)
  note tB = endGame_top_word [OF f b ub, THEN conjunct2, THEN conjunct2, THEN conjunct1, rule_format]
  note tA = endGame_top_word [OF f a ua, THEN conjunct2, THEN conjunct2, THEN conjunct2, rule_format]
  have "map_of (usage_summary ?r) (pid ?B) =
          Some (first_with_greatest [(''boing'', 2), (''zap'', 2)])"
    by (rule tB) (simp add: array_index_simps)
  moreover have "first_with_greatest [(''boing'', 2::nat), (''zap'', 2)] = (Some ''boing'', 2)"
    by (simp add: first_with_greatest_def)
  moreover have "map_of (usage_summary ?r) (pid ?A) = Some (None, 0)"
    by (rule tA) (simp add: ids make_room_def)
  moreover have "usage_summary ?r = [(''A'', None, 0), (''B'', Some ''boing'', 2)]"
    by (simp add: usage_summary_def usage_of_def top_usage_def top_step_def object_entries_def
        put_own_def make_room_def make_player_def array_index_simps)
  ultimately show ?thesis by (simp add: ids)
qed

section \<open>Exclusive room creation\<close>

lemma get_property_Undefined:
  "get_property obj k = Undefined \<Longrightarrow> map_of obj k = None"
  by (simp add: get_property_def split: option.splits if_splits)

lemma map_of_None_not_own: "map_of obj k = None \<Longrightarrow> k \<notin> fst ` set obj"
  by (simp add: map_of_eq_None_iff)

lemma put_own_fresh: "map_of obj k = None \<Longrightarrow> put_own obj k v = obj @ [(k, v)]"
  by (simp add: put_own_def map_of_None_not_own)

lemma get_property_appended:
  "map_of obj k = None \<Longrightarrow> get_property (obj @ [(k, v)]) k = Own v"
  by (simp add: get_property_def map_add_def)

lemma createRoom_taken:
  "get_property (rooms s) roomId \<noteq> Undefined \<Longrightarrow>
   createRoom readdir rnd sid roomId playerName dn s = (s, [ErrorEvent sid ''Room already exists''])"
  by (cases "get_property (rooms s) roomId") (simp_all add: createRoom_def)

lemma createRoom_fresh:
  assumes "get_property (rooms s) roomId = Undefined" and "readdir dn = Some files"
  shows "createRoom readdir rnd sid roomId playerName dn s =
           (\<lparr>rooms = rooms s @ [(roomId, length (heap s))],
             heap = heap s @ [\<lparr>players = [\<lparr>pid = sid, name = playerName, points = 0\<rparr>],
                               deck = shuffle rnd (filter is_image files),
                               currentTurnPlayerIndex = Some 0,
                               onomatopoeiaList = [],
                               deckName = dn,
                               currentCard = None,
                               roundCount = 1,
                               stats = []\<rparr>]\<rparr>,
            [RoomsList (object_keys (rooms s @ [(roomId, length (heap s))])),
             UpdatePlayers roomId [\<lparr>pid = sid, name = playerName, points = 0\<rparr>]])"
  using assms get_property_Undefined [OF assms(1)]
  by (simp add: createRoom_def Let_def put_own_fresh)

text \<open>
  Claim C7, as stated, fails. With the room already registered both calls are refused
  as existing; with a deck folder that cannot be read both calls fail with the other
  error and nothing is refused as existing; and under the id \<open>constructor\<close> the empty
  registry already answers that the room exists.
\<close>

theorem createRoom_twice_counterexample:
  "createRoom deck_files pick_first ''s2'' ''b'' ''bob'' ''animals'' room_b_only
     = (room_b_only, [ErrorEvent ''s2'' ''Room already exists''])
   \<and> createRoom deck_files pick_first ''s3'' ''b'' ''cy'' ''animals'' room_b_only
     = (room_b_only, [ErrorEvent ''s3'' ''Room already exists''])
   \<and> createRoom deck_files pick_first ''s1'' ''c'' ''ann'' ''missing'' empty_server
     = (empty_server, [ErrorEvent ''s1'' ''Failed to load deck images''])
   \<and> createRoom deck_files pick_first ''s2'' ''c'' ''bob'' ''missing'' empty_server
     = (empty_server, [ErrorEvent ''s2'' ''Failed to load deck images''])
   \<and> createRoom deck_files pick_first ''s1'' ''constructor'' ''ann'' ''animals'' empty_server
     = (empty_server, [ErrorEvent ''s1'' ''Room already exists''])"
proof -
  have "get_property (rooms room_b_only) ''b'' \<noteq> Undefined"
    by (simp add: room_b_only_def createRoom_def Let_def object_simps fixture_simps)
  then have "\<And>sid n. createRoom deck_files pick_first sid ''b'' n ''animals'' room_b_only
                 = (room_b_only, [ErrorEvent sid ''Room already exists''])"
    by (rule createRoom_taken)
  moreover have "\<And>sid n. createRoom deck_files pick_first sid ''c'' n ''missing'' empty_server
                 = (empty_server, [ErrorEvent sid ''Failed to load deck images''])"
    by (simp add: createRoom_def object_simps fixture_simps)
  moreover have "createRoom deck_files pick_first ''s1'' ''constructor'' ''ann'' ''animals'' empty_server
                 = (empty_server, [ErrorEvent ''s1'' ''Room already exists''])"
    by (simp add: createRoom_def object_simps fixture_simps)
  ultimately show ?thesis by simp
qed

text \<open>
  Claim C7, amended. In every registry state in which \<^verbatim>\<open>rooms[roomId]\<close> is undefined
  (no room is registered under the id and the id names no member of
  \<^verbatim>\<open>Object.prototype\<close>), and with a deck folder that can be read, the first of two
  back-to-back calls of createRoom with the same id succeeds and registers a room
  with the creator as its only player, and the second call, whatever its other
  arguments, gets the error that the room exists and leaves the whole state as the
  first call left it.
\<close>

theorem createRoom_exclusive:
  assumes "get_property (rooms s) roomId = Undefined" and "readdir dn = Some files"
  shows "snd (createRoom readdir rnd sid roomId playerName dn s) =
           [RoomsList (object_keys (rooms s @ [(roomId, length (heap s))])),
            UpdatePlayers roomId [\<lparr>pid = sid, name = playerName, points = 0\<rparr>]]
         \<and> find_room (fst (createRoom readdir rnd sid roomId playerName dn s)) roomId =
             Own (length (heap s),
                  \<lparr>players = [\<lparr>pid = sid, name = playerName, points = 0\<rparr>],
                   deck = shuffle rnd (filter is_image files),
                   currentTurnPlayerIndex = Some 0,
                   onomatopoeiaList = [],
                   deckName = dn,
                   currentCard = None,
                   roundCount = 1,
                   stats = []\<rparr>)
         \<and> createRoom readdir' rnd' sid' roomId playerName' dn'
               (fst (createRoom readdir rnd sid roomId playerName dn s)) =
             (fst (createRoom readdir rnd sid roomId playerName dn s),
              [ErrorEvent sid' ''Room already exists''])"
proof -
  let ?s1 = "fst (createRoom readdir rnd sid roomId playerName dn s)"
  note first = createRoom_fresh [where readdir = readdir and dn = dn and rnd = rnd and sid = sid and
      playerName = playerName, OF assms]
  have none: "map_of (rooms s) roomId = None"
    by (rule get_property_Undefined [OF assms(1)])
  have own: "get_property (rooms ?s1) roomId = Own (length (heap s))"
    by (simp add: first get_property_appended [OF none])
  have found: "find_room ?s1 roomId = Own (length (heap s), last (heap ?s1))"
    by (simp add: find_room_def own) (simp add: first)
  have "get_property (rooms ?s1) roomId \<noteq> Undefined"
    by (simp add: own)
  then have second: "createRoom readdir' rnd' sid' roomId playerName' dn' ?s1 =
                       (?s1, [ErrorEvent sid' ''Room already exists''])"
    by (rule createRoom_taken)
  show ?thesis
    using second found by (simp add: first)
qed

theorem createRoom_exclusive_witness:
  "snd (createRoom deck_files pick_first ''s1'' ''b'' ''ann'' ''animals'' empty_server)
     = [RoomsList [''b''], UpdatePlayers ''b'' [make_player ''s1'' ''ann'' 0]]
   \<and> createRoom deck_files pick_first ''s2'' ''b'' ''bob'' ''animals'' room_b_only
     = (room_b_only, [ErrorEvent ''s2'' ''Room already exists''])"
proof -
  have u: "get_property (rooms empty_server) ''b'' = Undefined"
    by (simp add: object_simps fixture_simps)
  have d: "deck_files ''animals'' = Some [''cat.png'', ''notes.txt'', ''dog.JPG'']"
    by (simp add: deck_files_def)
  have k: "object_keys (rooms empty_server @ [(''b'', length (heap empty_server))]) = [''b'']"
    by (simp add: object_simps array_index_simps fixture_simps)
  from createRoom_exclusive [where readdir = deck_files and dn = "''animals''" and rnd = pick_first
      and sid = "''s1''" and playerName = "''ann''" and readdir' = deck_files and rnd' = pick_first
      and sid' = "''s2''" and playerName' = "''bob''" and dn' = "''animals''", OF u d]
  show ?thesis
    by (simp add: k room_b_only_def make_player_def)
qed

section \<open>Scoring\<close>

lemma position_of_Cons:
  "position_of x (p # ps) = (if pid p = x then 0 else Suc (position_of x ps))"
  by (simp add: position_of_def)

lemma length_award_first: "length (award_first x ps) = length ps"
  by (induction ps) simp_all

lemma pid_award_first: "map pid (award_first x ps) = map pid ps"
  by (induction ps) simp_all

lemma name_award_first: "map name (award_first x ps) = map name ps"
  by (induction ps) simp_all

lemma position_of_award_first: "position_of y (award_first x ps) = position_of y ps"
  by (induction ps) (simp_all add: position_of_Cons)

lemma points_award_first:
  "i < length ps \<Longrightarrow>
   points (award_first x ps ! i) =
     (if pid (ps ! i) = x \<and> position_of x ps = i then js_succ (points (ps ! i))
      else points (ps ! i))"
proof (induction ps arbitrary: i)
  case Nil
  then show ?case by simp
next
  case (Cons p ps)
  show ?case
  proof (cases i)
    case 0
    then show ?thesis by (simp add: position_of_Cons)
  next
    case (Suc j)
    with Cons.prems have "j < length ps" by simp
    from Cons.IH [OF this] show ?thesis by (simp add: Suc position_of_Cons)
  qed
qed

lemma award_first_absent: "find (\<lambda>p. pid p = x) ps = None \<Longrightarrow> award_first x ps = ps"
  by (induction ps) (simp_all split: if_splits)

lemma fst_award_points: "fst (award_points ids ps ns) = fold award_first ids ps"
  by (induction ids arbitrary: ps ns) (simp_all add: award_first_absent split: option.splits)

lemma length_fold_award: "length (fold award_first ids ps) = length ps"
  by (induction ids arbitrary: ps) (simp_all add: length_award_first)

lemma pid_fold_award: "map pid (fold award_first ids ps) = map pid ps"
  by (induction ids arbitrary: ps) (simp_all add: pid_award_first)

lemma name_fold_award: "map name (fold award_first ids ps) = map name ps"
  by (induction ids arbitrary: ps) (simp_all add: name_award_first)

lemma points_fold_award:
  "distinct ids \<Longrightarrow> i < length ps \<Longrightarrow>
   points (fold award_first ids ps ! i) =
     (if pid (ps ! i) \<in> set ids \<and> position_of (pid (ps ! i)) ps = i
      then js_succ (points (ps ! i)) else points (ps ! i))"
proof (induction ids arbitrary: ps)
  case Nil
  then show ?case by simp
next
  case (Cons x ids)
  let ?ps1 = "award_first x ps"
  have d: "distinct ids" and nx: "x \<notin> set ids" using Cons.prems(1) by simp_all
  have i1: "i < length ?ps1" using Cons.prems(2) by (simp add: length_award_first)
  have same_id: "pid (?ps1 ! i) = pid (ps ! i)"
  proof -
    have "map pid ?ps1 ! i = map pid ps ! i" by (simp add: pid_award_first)
    then show ?thesis using i1 Cons.prems(2) by simp
  qed
  have "points (fold award_first ids ?ps1 ! i) =
          (if pid (?ps1 ! i) \<in> set ids \<and> position_of (pid (?ps1 ! i)) ?ps1 = i
           then js_succ (points (?ps1 ! i)) else points (?ps1 ! i))"
    by (rule Cons.IH [OF d i1])
  then show ?case
    using nx by (auto simp add: same_id position_of_award_first points_award_first [OF Cons.prems(2)])
qed

lemma js_succ_exact: "n < 9007199254740992 \<Longrightarrow> js_succ n = n + 1"
  by (simp add: js_succ_def)

section \<open>The store and the handlers on a registered room\<close>

lemma find_room_OwnD:
  assumes "find_room s roomId = Own (a, r)"
  shows "get_property (rooms s) roomId = Own a" and "a < length (heap s)" and "heap s ! a = r"
  using assms
  by (auto simp add: find_room_def split: property.splits if_splits)

lemma find_room_store:
  assumes "find_room s roomId = Own (a, r)"
  shows "find_room (store_room s a r') roomId = Own (a, r')"
  using find_room_OwnD [OF assms]
  by (simp add: find_room_def store_room_def)

lemma heap_store_room:
  "a < length (heap s) \<Longrightarrow> heap (store_room s a r) ! a = r"
  by (simp add: store_room_def)

lemma length_heap_store_room: "length (heap (store_room s a r)) = length (heap s)"
  by (simp add: store_room_def)

lemma rooms_store_room: "rooms (store_room s a r) = rooms s"
  by (simp add: store_room_def)

lemma store_room_twice: "store_room (store_room s a r) a r' = store_room s a r'"
  by (simp add: store_room_def)

lemma length_score_choice: "length (fst (score_choice r t)) = length (players r)"
  by (simp add: score_choice_def fst_award_points length_fold_award split: option.splits)

lemma player_at_Some:
  "player_at ps idx = Some p \<Longrightarrow> \<exists>i. idx = Some i \<and> i < length ps \<and> p = ps ! i"
  by (auto simp add: player_at_def split: option.splits if_splits)

lemma player_at_same_length:
  "length ps' = length ps \<Longrightarrow> player_at ps idx = Some p \<Longrightarrow> \<exists>p'. player_at ps' idx = Some p'"
  by (auto simp add: player_at_def split: option.splits if_splits)

lemma chooseOnomatopoeia_own:
  assumes "find_room s roomId = Own (a, r)"
    and "player_at (players r) (currentTurnPlayerIndex r) = Some parent"
  shows "chooseOnomatopoeia roomId t s =
           Inr (store_room s a (r\<lparr>players := fst (score_choice r t)\<rparr>),
                Some (a, snd (score_choice r t)))"
proof -
  obtain p' where "player_at (fst (score_choice r t)) (currentTurnPlayerIndex r) = Some p'"
    using player_at_same_length [OF length_score_choice assms(2)] by blast
  then show ?thesis
    using assms(1) by (simp add: chooseOnomatopoeia_def case_prod_unfold Let_def)
qed

lemma chooseOnomatopoeia_no_parent:
  assumes "find_room s roomId = Own (a, r)"
    and "player_at (players r) (currentTurnPlayerIndex r) = None"
  shows "chooseOnomatopoeia roomId t s =
           Inl (TypeError (store_room s a (r\<lparr>players := fst (score_choice r t)\<rparr>)))"
proof -
  have "player_at (fst (score_choice r t)) (currentTurnPlayerIndex r) = None"
    using assms(2) length_score_choice [of r t]
    by (auto simp add: player_at_def split: option.splits if_splits)
  then show ?thesis
    using assms(1) by (simp add: chooseOnomatopoeia_def case_prod_unfold Let_def)
qed

text \<open>chooseAnswer on a registered room that has a current parent.\<close>

lemma chooseAnswer_own:
  assumes "find_room s roomId = Own (a, r)"
    and "player_at (players r) (currentTurnPlayerIndex r) = Some parent"
  shows "chooseAnswer roomId t s =
           (let ps = fst (score_choice r t);
                chosen = OnomatopoeiaChosen roomId (snd (score_choice r t)) ps;
                r1 = r\<lparr>players := ps, onomatopoeiaList := []\<rparr>
            in if deck r = []
               then Inr (store_room s a r1\<lparr>rooms := delete_property (rooms s) roomId\<rparr>,
                         [chosen, GameOver roomId (winners_of ps) ps (usage_summary r1)])
               else
                 let r2 = r1\<lparr>currentTurnPlayerIndex :=
                              next_index (currentTurnPlayerIndex r) (length ps),
                            roundCount := js_succ (roundCount r)\<rparr>
                 in Inr (store_room s a r2,
                         [chosen, NewTurn roomId (player_at ps (currentTurnPlayerIndex r2))]))"
proof -
  let ?ps = "fst (score_choice r t)"
  let ?s1 = "store_room s a (r\<lparr>players := ?ps\<rparr>)"
  let ?r1 = "r\<lparr>players := ?ps, onomatopoeiaList := []\<rparr>"
  note own = find_room_OwnD [OF assms(1)]
  have sync: "chooseOnomatopoeia roomId t s = Inr (?s1, Some (a, snd (score_choice r t)))"
    by (rule chooseOnomatopoeia_own [OF assms])
  have bound: "a < length (heap ?s1)" using own(2) by (simp add: length_heap_store_room)
  have at: "heap ?s1 ! a = r\<lparr>players := ?ps\<rparr>" using own(2) by (rule heap_store_room)
  have st: "store_room ?s1 a ?r1 = store_room s a ?r1" by (rule store_room_twice)
  have fr: "find_room (store_room s a ?r1) roomId = Own (a, ?r1)"
    by (rule find_room_store [OF assms(1)])
  have eg: "endGame roomId (store_room s a ?r1) =
              Inr (store_room s a ?r1\<lparr>rooms := delete_property (rooms s) roomId\<rparr>,
                   [GameOver roomId (winners_of ?ps) ?ps (usage_summary ?r1)])"
    using fr by (simp add: endGame_def rooms_store_room)
  show ?thesis
    unfolding chooseAnswer_def sync
    using bound at eg
    by (simp add: chooseOnomatopoeia_finally_def Let_def store_room_twice)
qed

lemma position_of_distinct:
  "distinct (map pid ps) \<Longrightarrow> i < length ps \<Longrightarrow> position_of (pid (ps ! i)) ps = i"
proof (induction ps arbitrary: i)
  case Nil
  then show ?case by simp
next
  case (Cons p ps)
  show ?case
  proof (cases i)
    case 0
    then show ?thesis by (simp add: position_of_Cons)
  next
    case (Suc j)
    with Cons.prems have j: "j < length ps" and d: "distinct (map pid ps)"
      and np: "pid p \<notin> pid ` set ps" by simp_all
    from j have "pid (ps ! j) \<in> pid ` set ps" by simp
    with np have "pid p \<noteq> pid (ps ! j)" by metis
    then show ?thesis using Cons.IH [OF d j] by (simp add: Suc position_of_Cons)
  qed
qed

lemma nth_map_eq:
  "map f xs = map f ys \<Longrightarrow> i < length ys \<Longrightarrow> f (xs ! i) = f (ys ! i)"
  by (metis length_map nth_map)

text \<open>
  Claim C3. chooseAnswer on a registered room leaves the room object, whether the
  handler returns or throws, with the following players. When the chosen text matches
  no group, the players are unchanged. When it matches a group whose submitter ids are
  a set (no id twice), the list of players keeps its length, ids and names, and the
  player at each position gains one point if that player's id is among the submitters
  and the player is the first one with that id, and gains nothing otherwise. The gain
  is the addition of 1 on numbers, exact below \<open>2^53\<close>; with ids unique within the
  room every player is the first one with its id.
\<close>

theorem choose_scoring:
  assumes "find_room s roomId = Own (a, r)"
  shows "a < length (heap (state_after (chooseAnswer roomId t s)))
   \<and> (find (\<lambda>item. onomatopoeia item = t) (onomatopoeiaList r) = None
      \<longrightarrow> players (heap (state_after (chooseAnswer roomId t s)) ! a) = players r)
   \<and> (find (\<lambda>item. onomatopoeia item = t) (onomatopoeiaList r) = Some g
        \<and> distinct (playerIds g) \<and> i < length (players r)
      \<longrightarrow> length (players (heap (state_after (chooseAnswer roomId t s)) ! a)) = length (players r)
          \<and> pid (players (heap (state_after (chooseAnswer roomId t s)) ! a) ! i) = pid (players r ! i)
          \<and> name (players (heap (state_after (chooseAnswer roomId t s)) ! a) ! i)
              = name (players r ! i)
          \<and> points (players (heap (state_after (chooseAnswer roomId t s)) ! a) ! i) =
              (if pid (players r ! i) \<in> set (playerIds g)
                  \<and> position_of (pid (players r ! i)) (players r) = i
               then js_succ (points (players r ! i)) else points (players r ! i))
          \<and> (points (players r ! i) < 9007199254740992
                \<longrightarrow> js_succ (points (players r ! i)) = points (players r ! i) + 1)
          \<and> (distinct (map pid (players r))
                \<longrightarrow> position_of (pid (players r ! i)) (players r) = i))"
proof -
  let ?after = "players (heap (state_after (chooseAnswer roomId t s)) ! a)"
  note own = find_room_OwnD [OF assms]
  have fr: "find_room (s\<lparr>heap := (heap s)[a := x]\<rparr>) roomId = Own (a, x)" for x
    using own by (simp add: find_room_def)
  have "a < length (heap (state_after (chooseAnswer roomId t s)))
        \<and> ?after = fst (score_choice r t)"
    using assms own(2)
    by (auto simp add: chooseAnswer_def chooseOnomatopoeia_def chooseOnomatopoeia_finally_def
        endGame_def state_after_def store_room_def fr Let_def case_prod_unfold
        split: option.splits)
  then have after: "a < length (heap (state_after (chooseAnswer roomId t s)))"
    "?after = fst (score_choice r t)"
    by simp_all
  show ?thesis
  proof (intro conjI impI)
    show "a < length (heap (state_after (chooseAnswer roomId t s)))" by (rule after(1))
  next
    assume "find (\<lambda>item. onomatopoeia item = t) (onomatopoeiaList r) = None"
    then show "?after = players r" by (simp add: after(2) score_choice_def)
  next
    assume h: "find (\<lambda>item. onomatopoeia item = t) (onomatopoeiaList r) = Some g
               \<and> distinct (playerIds g) \<and> i < length (players r)"
    then have sc: "?after = fold award_first (playerIds g) (players r)"
      by (simp add: after(2) score_choice_def fst_award_points)
    show "length ?after = length (players r)"
      by (simp add: sc length_fold_award)
    show "pid (?after ! i) = pid (players r ! i)"
      unfolding sc using h by (intro nth_map_eq) (simp_all add: pid_fold_award)
    show "name (?after ! i) = name (players r ! i)"
      unfolding sc using h by (intro nth_map_eq) (simp_all add: name_fold_award)
    show "points (?after ! i) =
            (if pid (players r ! i) \<in> set (playerIds g)
                \<and> position_of (pid (players r ! i)) (players r) = i
             then js_succ (points (players r ! i)) else points (players r ! i))"
      unfolding sc using h by (intro points_fold_award) simp_all
    {
      assume "points (players r ! i) < 9007199254740992"
      then show "js_succ (points (players r ! i)) = points (players r ! i) + 1"
        by (rule js_succ_exact)
    }
    assume "distinct (map pid (players r))"
    then show "position_of (pid (players r ! i)) (players r) = i"
      using h by (intro position_of_distinct) simp_all
  qed
qed

lemmas boing_simps = boing_room_def make_room_def make_player_def

theorem choose_scoring_witness:
  "state_after (chooseAnswer ''r'' ''boing'' (server_of boing_room)) =
     \<lparr>rooms = [],
      heap = [make_room [make_player ''A'' ''ann'' 0, make_player ''B'' ''bob'' 1,
                         make_player ''C'' ''cy'' 1] [] (Some 0) [] []]\<rparr>
   \<and> points (players (heap (state_after (chooseAnswer ''r'' ''boing'' (server_of boing_room))) ! 0) ! 0) = 0
   \<and> points (players (heap (state_after (chooseAnswer ''r'' ''boing'' (server_of boing_room))) ! 0) ! 1) = 1
   \<and> points (players (heap (state_after (chooseAnswer ''r'' ''boing'' (server_of boing_room))) ! 0) ! 2) = 1
   \<and> players (heap (state_after (chooseAnswer ''r'' ''zap'' (server_of boing_room))) ! 0)
       = players boing_room"
proof -
  let ?g = "\<lparr>onomatopoeia = ''boing'', playerIds = [''B'', ''C'']\<rparr>"
  have f: "find (\<lambda>item. onomatopoeia item = ''boing'') (onomatopoeiaList boing_room) = Some ?g"
    by (simp add: boing_simps)
  have n: "find (\<lambda>item. onomatopoeia item = ''zap'') (onomatopoeiaList boing_room) = None"
    by (simp add: boing_simps)
  have d: "distinct (playerIds ?g)" by simp
  have len: "length (players boing_room) = 3" by (simp add: boing_simps)
  have own: "find_room (server_of boing_room) ''r'' = Own (0, boing_room)"
    by (simp add: find_room_def server_of_def get_property_def)
  have direct: "state_after (chooseAnswer ''r'' ''boing'' (server_of boing_room)) =
     \<lparr>rooms = [],
      heap = [make_room [make_player ''A'' ''ann'' 0, make_player ''B'' ''bob'' 1,
                         make_player ''C'' ''cy'' 1] [] (Some 0) [] []]\<rparr>"
    by (simp add: state_after_def chooseAnswer_def chooseOnomatopoeia_def
        chooseOnomatopoeia_finally_def endGame_def score_choice_def find_room_def store_room_def
        player_at_def js_succ_def Let_def server_of_def boing_simps get_property_def
        delete_property_def)
  have p0: "points (players (heap (state_after (chooseAnswer ''r'' ''boing'' (server_of boing_room))) ! 0) ! 0) = 0"
    using choose_scoring [OF own, of "''boing''" ?g 0] f d len
    by (simp add: boing_simps position_of_def)
  have p1: "points (players (heap (state_after (chooseAnswer ''r'' ''boing'' (server_of boing_room))) ! 0) ! 1) = 1"
    using choose_scoring [OF own, of "''boing''" ?g 1] f d len
    by (simp add: boing_simps position_of_def js_succ_def)
  have p2: "points (players (heap (state_after (chooseAnswer ''r'' ''boing'' (server_of boing_room))) ! 0) ! 2) = 1"
    using choose_scoring [OF own, of "''boing''" ?g 2] f d len
    by (simp add: boing_simps position_of_def js_succ_def)
  have z: "players (heap (state_after (chooseAnswer ''r'' ''zap'' (server_of boing_room))) ! 0)
             = players boing_room"
    using choose_scoring [OF own, of "''zap''"] n by simp
  show ?thesis using direct p0 p1 p2 z by (simp only: simp_thms)
qed

section \<open>Deck exhaustion\<close>

lemma math_max_Max:
  assumes "xs \<noteq> []"
  shows "math_max xs = Some (Max (set xs))"
proof (cases xs)
  case Nil
  with assms show ?thesis by simp
next
  case (Cons x ys)
  have "Max (set (x # ys)) = fold max ys x" by (rule Max.set_eq_fold)
  then show ?thesis by (simp add: Cons math_max_def)
qed

lemma winners_of_greatest:
  "winners_of ps = filter (\<lambda>p. \<forall>q\<in>set ps. points q \<le> points p) ps"
proof (cases "ps = []")
  case True
  then show ?thesis by (simp add: winners_of_def)
next
  case False
  then have mm: "math_max (map points ps) = Some (Max (points ` set ps))"
    by (simp add: math_max_Max)
  have "\<And>p. p \<in> set ps \<Longrightarrow>
          (points p = Max (points ` set ps)) = (\<forall>q\<in>set ps. points q \<le> points p)"
  proof -
    fix p assume p: "p \<in> set ps"
    have fin: "finite (points ` set ps)" by simp
    show "(points p = Max (points ` set ps)) = (\<forall>q\<in>set ps. points q \<le> points p)"
    proof
      assume "points p = Max (points ` set ps)"
      then show "\<forall>q\<in>set ps. points q \<le> points p" using fin by simp
    next
      assume a: "\<forall>q\<in>set ps. points q \<le> points p"
      have "Max (points ` set ps) = points p"
        using fin p a by (intro Max_eqI) auto
      then show "points p = Max (points ` set ps)" by simp
    qed
  qed
  then show ?thesis
    unfolding winners_of_def mm by (intro filter_cong) auto
qed

lemma map_of_delete_property:
  "map_of (delete_property obj k) x = (if x = k then None else map_of obj x)"
  by (induction obj) (auto simp add: delete_property_def)

lemma drawCard_empty_deck:
  assumes "find_room s roomId = Own (a, r)" and "deck r = []"
    and "player_at (players r) (currentTurnPlayerIndex r) = Some parent"
  shows "drawCard (pid parent) roomId s =
           Inr (s\<lparr>rooms := delete_property (rooms s) roomId\<rparr>,
                [GameOver roomId (winners_of (players r)) (players r) (usage_summary r)])"
  using assms by (simp add: drawCard_def endGame_def)

text \<open>
  In a registered room whose deck is empty and whose parent index points at a player,
  a drawCard by that parent, and a chooseAnswer, both announce the end of the game to
  the room, with all players of greatest points as winners, and delete the room from
  the registry, leaving the other registrations as they were.
\<close>

lemma deck_exhaustion_with_parent:
  assumes "find_room s roomId = Own (a, r)" and "deck r = []"
    and "player_at (players r) (currentTurnPlayerIndex r) = Some parent"
  shows "drawCard (pid parent) roomId s =
           Inr (s\<lparr>rooms := delete_property (rooms s) roomId\<rparr>,
                [GameOver roomId (winners_of (players r)) (players r) (usage_summary r)])
         \<and> chooseAnswer roomId t s =
             Inr (store_room s a (r\<lparr>players := fst (score_choice r t), onomatopoeiaList := []\<rparr>)
                    \<lparr>rooms := delete_property (rooms s) roomId\<rparr>,
                  [OnomatopoeiaChosen roomId (snd (score_choice r t)) (fst (score_choice r t)),
                   GameOver roomId (winners_of (fst (score_choice r t))) (fst (score_choice r t))
                     (usage_summary (r\<lparr>players := fst (score_choice r t),
                                        onomatopoeiaList := []\<rparr>))])
         \<and> winners_of ps = filter (\<lambda>p. \<forall>q\<in>set ps. points q \<le> points p) ps
         \<and> map_of (delete_property (rooms s) roomId) k =
             (if k = roomId then None else map_of (rooms s) k)"
  using drawCard_empty_deck [OF assms] chooseAnswer_own [OF assms(1) assms(3), of t] assms(2)
  by (simp add: Let_def winners_of_greatest map_of_delete_property)

section \<open>Behaviour at particular inputs\<close>

lemmas handler_simps =
  submitOnomatopoeia_def record_usage_def usage_of_def next_tally_def totalSubmissions_def
  find_room_def store_room_def player_at_def js_succ_def Let_def

lemmas game_simps =
  and_then_def lobby_of_two_def lobby_of_three_def createRoom_def joinRoom_def startGame_def
  drawCard_def shuffle_def swap_def is_image_def has_suffix_def to_lower_def

lemma trio_game_state: "map_sum id fst trio_game = Inr (server_of trio_room)"
  by (simp add: trio_game_def trio_room_def game_simps handler_simps object_simps fixture_simps)

lemma duo_game_state: "map_sum id fst duo_game = Inr (server_of duo_room)"
  by (simp add: duo_game_def duo_room_def game_simps handler_simps object_simps fixture_simps)

lemma bob_parent_game_state: "map_sum id fst bob_parent_game = Inr (server_of bob_parent_room)"
  by (simp add: bob_parent_game_def bob_parent_room_def game_simps handler_simps object_simps
      fixture_simps)

lemma cy_leaves_game_state: "map_sum id fst cy_leaves_game = Inr (server_of cy_left_room)"
  by (simp add: cy_leaves_game_def cy_left_room_def game_simps handler_simps object_simps
      fixture_simps disconnect_def disconnect_room_def array_index_simps)

lemma cy_parent_game_state: "map_sum id fst cy_parent_game = Inr (server_of cy_parent_room)"
  by (simp add: cy_parent_game_def cy_parent_room_def game_simps handler_simps object_simps
      fixture_simps)

text \<open>
  Claim C1. In the game of three, with Ann the parent and a card drawn, Bob submits
  two different texts and Cy nothing: the second submission already delivers the list
  to the parent, with one contributing player of the two. In the game of two, Bob
  submits the same text twice and the list is delivered twice.
\<close>

theorem submission_trigger_at_inputs:
  "map_sum id fst trio_game = Inr (server_of trio_room)
   \<and> map_sum id snd (submit_all all_connected ''r'' [(''B'', ''boing''), (''B'', ''zap'')]
                       (server_of trio_room))
     = Inr [[],
            [OnomatopoeiaList ''A''
               [\<lparr>onomatopoeia = ''boing'', playerIds = [''B'']\<rparr>,
                \<lparr>onomatopoeia = ''zap'', playerIds = [''B'']\<rparr>]]]
   \<and> map_sum id fst duo_game = Inr (server_of duo_room)
   \<and> map_sum id snd (submit_all all_connected ''r'' [(''B'', ''boing''), (''B'', ''boing'')]
                       (server_of duo_room))
     = Inr [[OnomatopoeiaList ''A'' [\<lparr>onomatopoeia = ''boing'', playerIds = [''B'']\<rparr>]],
            [OnomatopoeiaList ''A'' [\<lparr>onomatopoeia = ''boing'', playerIds = [''B'']\<rparr>]]]"
proof -
  have "map_sum id snd (submit_all all_connected ''r'' [(''B'', ''boing''), (''B'', ''zap'')]
                          (server_of trio_room))
     = Inr [[],
            [OnomatopoeiaList ''A''
               [\<lparr>onomatopoeia = ''boing'', playerIds = [''B'']\<rparr>,
                \<lparr>onomatopoeia = ''zap'', playerIds = [''B'']\<rparr>]]]"
    by (simp add: trio_room_def handler_simps object_simps fixture_simps)
  moreover
  have "map_sum id snd (submit_all all_connected ''r'' [(''B'', ''boing''), (''B'', ''boing'')]
                          (server_of duo_room))
     = Inr [[OnomatopoeiaList ''A'' [\<lparr>onomatopoeia = ''boing'', playerIds = [''B'']\<rparr>]],
            [OnomatopoeiaList ''A'' [\<lparr>onomatopoeia = ''boing'', playerIds = [''B'']\<rparr>]]]"
    by (simp add: duo_room_def handler_simps object_simps fixture_simps)
  ultimately show ?thesis using trio_game_state duo_game_state by simp
qed

text \<open>
  Claim C2. In the game of two with Bob the parent, at index 1, Bob disconnects: the
  room keeps Ann as its only player and the index 1, which points at no player, and the
  next drawCard throws.
\<close>

theorem disconnect_breaks_index:
  "map_sum id fst bob_parent_game = Inr (server_of bob_parent_room)
   \<and> disconnect ''B'' (server_of bob_parent_room) =
       (server_of (make_room [make_player ''A'' ''ann'' 0] [''dog.JPG'', ''cat.png''] (Some 1) [] []),
        [UpdatePlayers ''r'' [make_player ''A'' ''ann'' 0]])
   \<and> player_at [make_player ''A'' ''ann'' 0] (Some 1) = None
   \<and> drawCard ''A'' ''r''
        (server_of (make_room [make_player ''A'' ''ann'' 0] [''dog.JPG'', ''cat.png''] (Some 1) [] []))
      = Inl (TypeError
          (server_of (make_room [make_player ''A'' ''ann'' 0] [''dog.JPG'', ''cat.png''] (Some 1) [] [])))"
proof -
  have "disconnect ''B'' (server_of bob_parent_room) =
       (server_of (make_room [make_player ''A'' ''ann'' 0] [''dog.JPG'', ''cat.png''] (Some 1) [] []),
        [UpdatePlayers ''r'' [make_player ''A'' ''ann'' 0]])"
    by (simp add: bob_parent_room_def disconnect_def disconnect_room_def find_room_def
        store_room_def Let_def object_simps array_index_simps fixture_simps)
  moreover
  have "drawCard ''A'' ''r''
        (server_of (make_room [make_player ''A'' ''ann'' 0] [''dog.JPG'', ''cat.png''] (Some 1) [] []))
      = Inl (TypeError
          (server_of (make_room [make_player ''A'' ''ann'' 0] [''dog.JPG'', ''cat.png''] (Some 1) [] [])))"
    by (simp add: drawCard_def find_room_def player_at_def object_simps fixture_simps)
  ultimately show ?thesis using bob_parent_game_state by (simp add: player_at_def)
qed

text \<open>
  Claim C4. In the game of three with Cy the parent, at index 2, Cy draws both cards,
  Ann and Bob submit \<open>boing\<close>, and Cy disconnects. The deck is empty and the index 2
  points at no player: chooseAnswer adds the points and throws. No end of the game is
  announced and the room stays registered.
\<close>

theorem choose_on_empty_deck_throws:
  "map_sum id fst cy_leaves_game = Inr (server_of cy_left_room)
   \<and> deck cy_left_room = []
   \<and> chooseAnswer ''r'' ''boing'' (server_of cy_left_room) =
       Inl (TypeError
         (server_of (cy_left_room\<lparr>players := [make_player ''A'' ''ann'' 1,
                                               make_player ''B'' ''bob'' 1]\<rparr>)))
   \<and> find_room
         (state_after (chooseAnswer ''r'' ''boing'' (server_of cy_left_room))) ''r''
       = Own (0, cy_left_room\<lparr>players := [make_player ''A'' ''ann'' 1,
                                              make_player ''B'' ''bob'' 1]\<rparr>)"
proof -
  have c: "chooseAnswer ''r'' ''boing'' (server_of cy_left_room) =
       Inl (TypeError
         (server_of (cy_left_room\<lparr>players := [make_player ''A'' ''ann'' 1,
                                               make_player ''B'' ''bob'' 1]\<rparr>)))"
    by (simp add: cy_left_room_def chooseAnswer_def chooseOnomatopoeia_def score_choice_def
        find_room_def store_room_def player_at_def js_succ_def Let_def object_simps fixture_simps)
  have f: "find_room (server_of x) ''r'' = Own (0, x)" for x
    by (simp add: find_room_def server_of_def get_property_def)
  have d: "deck cy_left_room = []"
    by (simp add: cy_left_room_def make_room_def)
  show ?thesis using cy_leaves_game_state d by (simp add: c f state_after_def)
qed

text \<open>
  Claim C6. In the game of three Bob submits the text \<open>constructor\<close> twice: his usage
  entry holds a string under that text after the first submission and after the second,
  never the counts 1 and 2. The text \<open>__proto__\<close> is not recorded at all.
\<close>

theorem usage_count_at_inputs:
  "map_sum id fst trio_game = Inr (server_of trio_room)
   \<and> map_sum id fst (submit_all all_connected ''r'' [(''B'', ''constructor'')] (server_of trio_room))
       = Inr (server_of
                (trio_room\<lparr>onomatopoeiaList := [\<lparr>onomatopoeia = ''constructor'', playerIds = [''B'']\<rparr>],
                           stats := [(''B'', [(''constructor'', Text)])]\<rparr>))
   \<and> map_sum id fst (submit_all all_connected ''r''
                        [(''B'', ''constructor''), (''B'', ''constructor'')] (server_of trio_room))
       = Inr (server_of
                (trio_room\<lparr>onomatopoeiaList := [\<lparr>onomatopoeia = ''constructor'', playerIds = [''B'']\<rparr>],
                           stats := [(''B'', [(''constructor'', Text)])]\<rparr>))
   \<and> map_sum id fst (submit_all all_connected ''r''
                        [(''B'', ''__proto__''), (''B'', ''__proto__'')] (server_of trio_room))
       = Inr (server_of
                (trio_room\<lparr>onomatopoeiaList := [\<lparr>onomatopoeia = ''__proto__'', playerIds = [''B'']\<rparr>],
                           stats := [(''B'', [])]\<rparr>))"
proof -
  have "map_sum id fst (submit_all all_connected ''r'' [(''B'', ''constructor'')] (server_of trio_room))
       = Inr (server_of
                (trio_room\<lparr>onomatopoeiaList := [\<lparr>onomatopoeia = ''constructor'', playerIds = [''B'']\<rparr>],
                           stats := [(''B'', [(''constructor'', Text)])]\<rparr>))"
    by (simp add: trio_room_def handler_simps object_simps fixture_simps)
  moreover
  have "map_sum id fst (submit_all all_connected ''r''
                        [(''B'', ''constructor''), (''B'', ''constructor'')] (server_of trio_room))
       = Inr (server_of
                (trio_room\<lparr>onomatopoeiaList := [\<lparr>onomatopoeia = ''constructor'', playerIds = [''B'']\<rparr>],
                           stats := [(''B'', [(''constructor'', Text)])]\<rparr>))"
    by (simp add: trio_room_def handler_simps object_simps fixture_simps)
  moreover
  have "map_sum id fst (submit_all all_connected ''r''
                        [(''B'', ''__proto__''), (''B'', ''__proto__'')] (server_of trio_room))
       = Inr (server_of
                (trio_room\<lparr>onomatopoeiaList := [\<lparr>onomatopoeia = ''__proto__'', playerIds = [''B'']\<rparr>],
                           stats := [(''B'', [])]\<rparr>))"
    by (simp add: trio_room_def handler_simps object_simps fixture_simps)
  ultimately show ?thesis using trio_game_state by simp
qed

text \<open>
  Claim C10. In the game of three with Cy the parent, at index 2, Ann has submitted
  \<open>boing\<close> and disconnects. The group of \<open>boing\<close> then names only an absent player,
  and the index 2 points at no player: chooseAnswer throws.
\<close>

theorem choose_after_disconnect_throws:
  "map_sum id fst cy_parent_game = Inr (server_of cy_parent_room)
   \<and> fst (disconnect ''A'' (server_of cy_parent_room)) =
       server_of (cy_parent_room\<lparr>players := [make_player ''B'' ''bob'' 0, make_player ''C'' ''cy'' 0]\<rparr>)
   \<and> chooseOnomatopoeia ''r'' ''boing'' (fst (disconnect ''A'' (server_of cy_parent_room)))
       = Inl (TypeError (fst (disconnect ''A'' (server_of cy_parent_room))))
   \<and> chooseAnswer ''r'' ''boing'' (fst (disconnect ''A'' (server_of cy_parent_room)))
       = Inl (TypeError (fst (disconnect ''A'' (server_of cy_parent_room))))"
proof -
  have d: "fst (disconnect ''A'' (server_of cy_parent_room)) =
       server_of (cy_parent_room\<lparr>players := [make_player ''B'' ''bob'' 0, make_player ''C'' ''cy'' 0]\<rparr>)"
    by (simp add: cy_parent_room_def disconnect_def disconnect_room_def find_room_def
        store_room_def Let_def object_simps array_index_simps fixture_simps)
  have c: "chooseOnomatopoeia ''r'' ''boing''
             (server_of (cy_parent_room\<lparr>players := [make_player ''B'' ''bob'' 0,
                                                     make_player ''C'' ''cy'' 0]\<rparr>))
           = Inl (TypeError
               (server_of (cy_parent_room\<lparr>players := [make_player ''B'' ''bob'' 0,
                                                       make_player ''C'' ''cy'' 0]\<rparr>)))"
    by (simp add: cy_parent_room_def chooseOnomatopoeia_def score_choice_def find_room_def
        store_room_def player_at_def Let_def object_simps fixture_simps)
  show ?thesis using cy_parent_game_state by (simp add: d c chooseAnswer_def)
qed

section \<open>Submissions: counting and grouping\<close>

lemma map_of_set_primitive:
  "word \<noteq> ''__proto__'' \<Longrightarrow> map_of (set_primitive u word v) word = Some v"
  by (simp add: set_primitive_def map_of_put_own)

lemma usage_of_record_usage:
  "usage_of (record_usage st sid word) sid =
     set_primitive (usage_of st sid) word (next_tally (get_property (usage_of st sid) word))"
  by (cases "map_of st sid") (simp_all add: record_usage_def usage_of_def Let_def map_of_put_own)

text \<open>
  A text that names no member of the prototype is counted: the first submission
  stores 1 and each further one adds 1 to the number stored. Other players' entries are untouched.
\<close>

lemma record_usage_counts:
  assumes "word \<notin> set proto_names"
  shows "map_of (usage_of (record_usage st sid word) sid) word =
           Some (case map_of (usage_of st sid) word of
                   None \<Rightarrow> Count 1
                 | Some (Count n) \<Rightarrow> Count (js_succ n)
                 | Some Text \<Rightarrow> Text)"
proof -
  from assms have np: "word \<noteq> ''__proto__''" by (auto simp add: proto_names_def)
  have "next_tally (get_property (usage_of st sid) word) =
          (case map_of (usage_of st sid) word of
             None \<Rightarrow> Count 1
           | Some (Count n) \<Rightarrow> Count (js_succ n)
           | Some Text \<Rightarrow> Text)"
    using assms by (simp add: next_tally_def get_property_def split: option.splits tally.splits)
  then show ?thesis by (simp add: usage_of_record_usage map_of_set_primitive [OF np])
qed

lemma record_usage_others:
  "sid' \<noteq> sid \<Longrightarrow> map_of (record_usage st sid word) sid' = map_of st sid'"
  by (cases "map_of st sid") (simp_all add: record_usage_def Let_def map_of_put_own)

text \<open>
  The grouping: a text never gets a second group, a group never lists an id twice, and
  a repeated submission changes nothing.
\<close>

lemma add_submission_texts:
  "map onomatopoeia (add_submission gs word sid) =
     (if word \<in> onomatopoeia ` set gs then map onomatopoeia gs
      else map onomatopoeia gs @ [word])"
  by (induction gs) auto

lemma add_submission_distinct_texts:
  "distinct (map onomatopoeia gs) \<Longrightarrow> distinct (map onomatopoeia (add_submission gs word sid))"
  by (simp add: add_submission_texts)

lemma add_submission_distinct_ids:
  "\<forall>g\<in>set gs. distinct (playerIds g) \<Longrightarrow>
   \<forall>g\<in>set (add_submission gs word sid). distinct (playerIds g)"
  by (induction gs) auto

lemma add_submission_idempotent:
  "add_submission (add_submission gs word sid) word sid = add_submission gs word sid"
  by (induction gs) auto

lemma add_submission_member:
  "\<exists>g\<in>set (add_submission gs word sid). onomatopoeia g = word \<and> sid \<in> set (playerIds g)"
  by (induction gs) auto

text \<open>
  When the list is delivered: after a submission to a registered room with a parent in
  place, exactly when the group memberships then sum to one less than the number of
  players and the parent is connected.
\<close>

lemma submitOnomatopoeia_delivery:
  assumes "find_room s roomId = Own (a, r)"
    and "player_at (players r) (currentTurnPlayerIndex r) = Some parent"
  shows "submitOnomatopoeia connected sid roomId word s =
           Inr (store_room s a
                  (r\<lparr>stats := record_usage (stats r) sid word,
                     onomatopoeiaList := add_submission (onomatopoeiaList r) word sid\<rparr>),
                if int (totalSubmissions (add_submission (onomatopoeiaList r) word sid))
                     = int (length (players r)) - 1
                   \<and> connected (pid parent)
                then [OnomatopoeiaList (pid parent) (add_submission (onomatopoeiaList r) word sid)]
                else [])"
  using assms by (simp add: submitOnomatopoeia_def Let_def)

lemma totalSubmissions_sum: "totalSubmissions gs = sum_list (map (\<lambda>g. length (playerIds g)) gs)"
proof -
  have "\<And>n. foldl (\<lambda>sum g. sum + length (playerIds g)) n gs
              = n + sum_list (map (\<lambda>g. length (playerIds g)) gs)"
    by (induction gs) simp_all
  then show ?thesis by (simp add: totalSubmissions_def)
qed

lemma totalSubmissions_repeat:
  "totalSubmissions (add_submission (add_submission gs word sid) word sid)
     = totalSubmissions (add_submission gs word sid)"
  by (simp add: add_submission_idempotent)

section \<open>The parent index under the handlers other than disconnect\<close>

lemma index_valid_player_at: "index_valid r = (\<exists>p. player_at (players r) (currentTurnPlayerIndex r) = Some p)"
  by (auto simp add: index_valid_def player_at_def split: option.splits)

lemma find_room_store_same:
  assumes "find_room s roomId = Own (a, r)" and "find_room (store_room s a r') roomId = Own (b, r'')"
  shows "b = a \<and> r'' = r'"
  using find_room_store [OF assms(1), of r'] assms(2) by simp

lemma createRoom_index_valid:
  assumes "get_property (rooms s) roomId = Undefined" and "readdir dn = Some files"
    and "find_room (fst (createRoom readdir rnd sid roomId playerName dn s)) roomId = Own (a, r)"
  shows "index_valid r"
proof -
  have none: "map_of (rooms s) roomId = None"
    by (rule get_property_Undefined [OF assms(1)])
  note first = createRoom_fresh [where readdir = readdir and dn = dn and rnd = rnd and sid = sid and
      playerName = playerName, OF assms(1,2)]
  from assms(3) show ?thesis
    by (auto simp add: first find_room_def get_property_appended [OF none] index_valid_def)
qed

lemma joinRoom_index_valid:
  assumes "find_room s roomId = Own (a, r)" and "index_valid r"
    and "joinRoom sid roomId playerName s = Inr (s', evs)"
    and "find_room s' roomId = Own (a', r')"
  shows "index_valid r'"
proof (cases "list_ex (\<lambda>p. name p = playerName) (players r)")
  case True
  with assms show ?thesis by (simp add: joinRoom_def)
next
  case False
  let ?r = "r\<lparr>players := players r @ [\<lparr>pid = sid, name = playerName, points = 0\<rparr>]\<rparr>"
  from False assms(1,3) have "s' = store_room s a ?r" by (simp add: joinRoom_def Let_def)
  with assms(4) find_room_store_same [OF assms(1)] have "r' = ?r" by blast
  with assms(2) show ?thesis by (auto simp add: index_valid_def split: option.splits)
qed

lemma startGame_index_valid:
  assumes "find_room s roomId = Own (a, r)" and "players r \<noteq> []"
    and "startGame rnd roomId s = Inr (s', evs)"
    and "find_room s' roomId = Own (a', r')"
  shows "index_valid r'"
proof -
  let ?r = "r\<lparr>currentTurnPlayerIndex := Some (rnd mod length (players r))\<rparr>"
  from assms(1,2,3) have "s' = store_room s a ?r" by (simp add: startGame_def Let_def)
  with assms(4) find_room_store_same [OF assms(1)] have "r' = ?r" by blast
  with assms(2) show ?thesis by (simp add: index_valid_def)
qed

lemma next_index_valid:
  "idx \<noteq> None \<Longrightarrow> 0 < n \<Longrightarrow> \<exists>i. next_index idx n = Some i \<and> i < n"
  by (auto simp add: next_index_def split: option.splits)

lemma nextTurn_index_valid:
  assumes "find_room s roomId = Own (a, r)" and "index_valid r"
    and "nextTurn roomId s = Inr (s', evs)"
    and "find_room s' roomId = Own (a', r')"
  shows "index_valid r'"
proof -
  let ?r = "r\<lparr>onomatopoeiaList := [],
             currentTurnPlayerIndex :=
               next_index (currentTurnPlayerIndex r) (length (players r)),
             roundCount := js_succ (roundCount r)\<rparr>"
  from assms(2) have ne: "currentTurnPlayerIndex r \<noteq> None" and pos: "0 < length (players r)"
    by (auto simp add: index_valid_def split: option.splits)
  from assms(1,3) have "s' = store_room s a ?r" by (simp add: nextTurn_def Let_def)
  with assms(4) find_room_store_same [OF assms(1)] have "r' = ?r" by blast
  with next_index_valid [OF ne pos] show ?thesis by (auto simp add: index_valid_def)
qed

lemma drawCard_index_valid:
  assumes "find_room s roomId = Own (a, r)" and "index_valid r"
    and "drawCard sid roomId s = Inr (s', evs)"
    and "find_room s' roomId = Own (a', r')"
  shows "index_valid r'"
proof -
  from assms(2) obtain cur where cur: "player_at (players r) (currentTurnPlayerIndex r) = Some cur"
    by (auto simp add: index_valid_player_at)
  have gone: "\<And>t. find_room (t\<lparr>rooms := delete_property (rooms t) roomId\<rparr>) roomId \<noteq> Own (a', r')"
    by (simp add: find_room_def get_property_def map_of_delete_property split: property.splits)
  let ?r1 = "r\<lparr>deck := butlast (deck r)\<rparr>"
  have eg: "\<And>x. endGame roomId (store_room s a x) =
                 Inr (store_room s a x\<lparr>rooms := delete_property (rooms (store_room s a x)) roomId\<rparr>,
                      [GameOver roomId (winners_of (players x)) (players x) (usage_summary x)])"
    using find_room_store [OF assms(1)] by (simp add: endGame_def)
  consider (other) "sid \<noteq> pid cur" | (empty) "sid = pid cur" "deck r = []"
    | (blank) "sid = pid cur" "deck r \<noteq> []" "last (deck r) = []"
    | (card) "sid = pid cur" "deck r \<noteq> []" "last (deck r) \<noteq> []"
    by blast
  then show ?thesis
  proof cases
    case other
    with assms cur have "s' = s" by (simp add: drawCard_def)
    with assms show ?thesis by simp
  next
    case empty
    with assms(1,3) cur have "s' = s\<lparr>rooms := delete_property (rooms s) roomId\<rparr>"
      by (simp add: drawCard_def endGame_def)
    with assms(4) gone show ?thesis by blast
  next
    case blank
    with assms(1,3) cur
    have "s' = store_room s a ?r1\<lparr>rooms := delete_property (rooms (store_room s a ?r1)) roomId\<rparr>"
      by (simp add: drawCard_def Let_def eg)
    with assms(4) gone show ?thesis by blast
  next
    case card
    with assms(1,3) cur
    have "s' = store_room s a (?r1\<lparr>currentCard := Some (last (deck r))\<rparr>)"
      by (simp add: drawCard_def Let_def)
    with assms(4) find_room_store_same [OF assms(1)]
    have "r' = ?r1\<lparr>currentCard := Some (last (deck r))\<rparr>" by blast
    with assms(2) show ?thesis by (auto simp add: index_valid_def split: option.splits)
  qed
qed

lemma chooseAnswer_index_valid:
  assumes "find_room s roomId = Own (a, r)" and "index_valid r"
    and "chooseAnswer roomId t s = Inr (s', evs)"
    and "find_room s' roomId = Own (a', r')"
  shows "index_valid r'"
proof -
  from assms(2) obtain cur where cur: "player_at (players r) (currentTurnPlayerIndex r) = Some cur"
    by (auto simp add: index_valid_player_at)
  from assms(2) have ne: "currentTurnPlayerIndex r \<noteq> None" and pos: "0 < length (players r)"
    by (auto simp add: index_valid_def split: option.splits)
  let ?ps = "fst (score_choice r t)"
  let ?r1 = "r\<lparr>players := ?ps, onomatopoeiaList := []\<rparr>"
  let ?r2 = "?r1\<lparr>currentTurnPlayerIndex := next_index (currentTurnPlayerIndex r) (length ?ps),
                  roundCount := js_succ (roundCount r)\<rparr>"
  note ca = chooseAnswer_own [OF assms(1) cur, of t]
  show ?thesis
  proof (cases "deck r = []")
    case True
    with ca assms(3) have "s' = store_room s a ?r1\<lparr>rooms := delete_property (rooms s) roomId\<rparr>"
      by (simp add: Let_def)
    then have "find_room s' roomId \<noteq> Own (a', r')"
      by (simp add: find_room_def get_property_def map_of_delete_property split: property.splits)
    with assms(4) show ?thesis by blast
  next
    case False
    with ca assms(3) have "s' = store_room s a ?r2" by (simp add: Let_def)
    with assms(4) find_room_store_same [OF assms(1)] have r': "r' = ?r2" by blast
    from next_index_valid [OF ne pos] show ?thesis
      by (auto simp add: r' index_valid_def length_score_choice)
  qed
qed

section \<open>Submitter ids without a player\<close>

lemma find_name_award_first:
  "map_option name (find (\<lambda>p. pid p = i) (award_first x ps))
     = map_option name (find (\<lambda>p. pid p = i) ps)"
  by (induction ps) simp_all

lemma present_names_award_first: "present_names ids (award_first x ps) = present_names ids ps"
  by (simp add: present_names_def find_name_award_first)

lemma present_names_Cons:
  "present_names (i # ids) ps =
     (case find (\<lambda>p. pid p = i) ps of
        None \<Rightarrow> present_names ids ps
      | Some p \<Rightarrow> name p # present_names ids ps)"
  by (simp add: present_names_def List.map_filter_simps split: option.splits)

lemma snd_award_points: "snd (award_points ids ps ns) = ns @ present_names ids ps"
proof (induction ids arbitrary: ps ns)
  case Nil
  show ?case by (simp add: present_names_def List.map_filter_simps)
next
  case (Cons i ids)
  show ?case
    by (cases "find (\<lambda>p. pid p = i) ps")
       (simp_all add: Cons.IH present_names_Cons present_names_award_first)
qed

text \<open>
  With a parent in place the handler completes; an id without a player adds no name
  and, by \<open>award_first_absent\<close>, changes no player.
\<close>

lemma score_choice_names:
  "find (\<lambda>item. onomatopoeia item = t) (onomatopoeiaList r) = Some g \<Longrightarrow>
   snd (score_choice r t) = present_names (playerIds g) (players r)"
  by (simp add: score_choice_def snd_award_points)

lemma present_names_absent:
  "i \<notin> pid ` set ps \<Longrightarrow> present_names (i # ids) ps = present_names ids ps"
proof -
  assume "i \<notin> pid ` set ps"
  then have "find (\<lambda>p. pid p = i) ps = None" by (auto simp add: find_None_iff)
  then show ?thesis by (simp add: present_names_Cons)
qed

lemma award_first_not_member: "i \<notin> pid ` set ps \<Longrightarrow> award_first i ps = ps"
  by (rule award_first_absent) (auto simp add: find_None_iff)

section \<open>The registry keeps the order of creation\<close>

text \<open>
  createRoom appends the new id to the registry; endGame and disconnect only remove
  ids, and the ids that remain keep their order.
\<close>

lemma createRoom_keys:
  "map fst (rooms (fst (createRoom readdir rnd sid roomId playerName dn s))) =
     (if get_property (rooms s) roomId = Undefined \<and> readdir dn \<noteq> None
      then map fst (rooms s) @ [roomId] else map fst (rooms s))"
proof (cases "get_property (rooms s) roomId = Undefined")
  case False
  then show ?thesis by (simp add: createRoom_taken)
next
  case True
  show ?thesis
  proof (cases "readdir dn")
    case None
    with True show ?thesis by (simp add: createRoom_def)
  next
    case (Some files)
    from createRoom_fresh [where readdir = readdir and dn = dn and rnd = rnd and sid = sid and
        playerName = playerName, OF True Some]
    show ?thesis using True Some by simp
  qed
qed

lemma keys_delete_property:
  "map fst (delete_property obj k) = filter (\<lambda>x. x \<noteq> k) (map fst obj)"
  by (induction obj) (simp_all add: delete_property_def)

lemma endGame_keys:
  assumes "endGame roomId s = Inr (s', evs)"
  shows "\<exists>ds. map fst (rooms s') = filter (\<lambda>k. k \<notin> set ds) (map fst (rooms s))"
proof (cases "find_room s roomId")
  case Undefined
  with assms have "s' = s" by (simp add: endGame_def)
  then have "map fst (rooms s') = filter (\<lambda>k. k \<notin> set []) (map fst (rooms s))" by simp
  then show ?thesis by blast
next
  case Inherited
  with assms show ?thesis by (simp add: endGame_def)
next
  case (Own ar)
  with assms have "rooms s' = delete_property (rooms s) roomId"
    by (auto simp add: endGame_def split: prod.splits)
  then have "map fst (rooms s') = filter (\<lambda>k. k \<notin> set [roomId]) (map fst (rooms s))"
    by (simp add: keys_delete_property)
  then show ?thesis by blast
qed

lemma disconnect_room_keys:
  "rooms (fst (disconnect_room sid acc roomId)) = rooms (fst acc)
   \<or> rooms (fst (disconnect_room sid acc roomId)) = delete_property (rooms (fst acc)) roomId"
  by (auto simp add: disconnect_room_def Let_def rooms_store_room
      split: property.splits prod.splits)

lemma disconnect_fold_keys:
  "\<exists>ds. map fst (rooms (fst (foldl (disconnect_room sid) acc ks)))
         = filter (\<lambda>k. k \<notin> set ds) (map fst (rooms (fst acc)))"
proof (induction ks arbitrary: acc)
  case Nil
  have "map fst (rooms (fst acc)) = filter (\<lambda>k. k \<notin> set []) (map fst (rooms (fst acc)))"
    by simp
  then show ?case by (metis foldl_Nil)
next
  case (Cons k ks)
  let ?acc = "disconnect_room sid acc k"
  from Cons.IH [of ?acc] obtain ds where
    ds: "map fst (rooms (fst (foldl (disconnect_room sid) ?acc ks)))
           = filter (\<lambda>x. x \<notin> set ds) (map fst (rooms (fst ?acc)))" by blast
  from disconnect_room_keys [of sid acc k]
  have "map fst (rooms (fst ?acc)) = filter (\<lambda>x. x \<notin> set []) (map fst (rooms (fst acc)))
        \<or> map fst (rooms (fst ?acc)) = filter (\<lambda>x. x \<notin> set [k]) (map fst (rooms (fst acc)))"
    by (auto simp add: keys_delete_property)
  then obtain es where
    es: "map fst (rooms (fst ?acc)) = filter (\<lambda>x. x \<notin> set es) (map fst (rooms (fst acc)))"
    by blast
  have "map fst (rooms (fst (foldl (disconnect_room sid) acc (k # ks))))
          = filter (\<lambda>x. x \<notin> set (ds @ es)) (map fst (rooms (fst acc)))"
    by (simp add: ds es conj_commute)
  then show ?case by blast
qed

lemma disconnect_keys:
  "\<exists>ds. map fst (rooms (fst (disconnect sid s))) = filter (\<lambda>k. k \<notin> set ds) (map fst (rooms s))"
  using disconnect_fold_keys [of sid "(s, [])" "object_keys (rooms s)"]
  by (simp add: disconnect_def)


text \<open>Every other handler leaves the registry as it is or deletes one id from it.\<close>

lemma kept:
  assumes "rooms s' = rooms s"
  shows "\<exists>ds. map fst (rooms s') = filter (\<lambda>k. k \<notin> set ds) (map fst (rooms s))"
proof -
  from assms have "map fst (rooms s') = filter (\<lambda>k. k \<notin> set []) (map fst (rooms s))"
    by simp
  then show ?thesis by blast
qed

lemma kept_or_deleted:
  assumes "rooms s' = rooms s \<or> rooms s' = delete_property (rooms s) roomId"
  shows "\<exists>ds. map fst (rooms s') = filter (\<lambda>k. k \<notin> set ds) (map fst (rooms s))"
proof -
  from assms
  have "map fst (rooms s') = filter (\<lambda>k. k \<notin> set []) (map fst (rooms s))
        \<or> map fst (rooms s') = filter (\<lambda>k. k \<notin> set [roomId]) (map fst (rooms s))"
    by (auto simp add: keys_delete_property)
  then show ?thesis by blast
qed

lemma joinRoom_rooms: "rooms (state_after (joinRoom sid roomId playerName s)) = rooms s"
  by (auto simp add: joinRoom_def state_after_def store_room_def Let_def
      split: property.splits prod.splits)

lemma startGame_rooms: "rooms (state_after (startGame rnd roomId s)) = rooms s"
  by (auto simp add: startGame_def state_after_def store_room_def Let_def
      split: property.splits prod.splits)

lemma nextTurn_rooms: "rooms (state_after (nextTurn roomId s)) = rooms s"
  by (auto simp add: nextTurn_def state_after_def store_room_def Let_def
      split: property.splits prod.splits)

lemma submitOnomatopoeia_rooms:
  "rooms (state_after (submitOnomatopoeia connected sid roomId word s)) = rooms s"
  by (auto simp add: submitOnomatopoeia_def state_after_def store_room_def Let_def
      split: property.splits prod.splits option.splits)

lemma chooseOnomatopoeia_rooms: "rooms (state_after (chooseOnomatopoeia roomId word s)) = rooms s"
  by (auto simp add: chooseOnomatopoeia_def state_after_def store_room_def Let_def
      split: property.splits prod.splits option.splits)

lemma endGame_rooms:
  "rooms (state_after (endGame roomId s)) = rooms s
   \<or> rooms (state_after (endGame roomId s)) = delete_property (rooms s) roomId"
  by (auto simp add: endGame_def state_after_def split: property.splits prod.splits)

lemma drawCard_rooms:
  "rooms (state_after (drawCard sid roomId s)) = rooms s
   \<or> rooms (state_after (drawCard sid roomId s)) = delete_property (rooms s) roomId"
proof -
  have eg: "rooms (state_after (endGame roomId (store_room s a x))) = rooms s
            \<or> rooms (state_after (endGame roomId (store_room s a x)))
                = delete_property (rooms s) roomId" for a x
    using endGame_rooms [of roomId "store_room s a x"] by (simp add: rooms_store_room)
  show ?thesis
  proof (cases "find_room s roomId")
    case Undefined
    then show ?thesis by (simp add: drawCard_def state_after_def)
  next
    case Inherited
    then show ?thesis by (simp add: drawCard_def state_after_def)
  next
    case (Own ar)
    obtain a r where ar: "ar = (a, r)" by (cases ar)
    show ?thesis
    proof (cases "player_at (players r) (currentTurnPlayerIndex r)")
      case None
      with Own ar show ?thesis by (simp add: drawCard_def state_after_def)
    next
      case (Some cur)
      with Own ar endGame_rooms [of roomId s] eg show ?thesis
        by (auto simp add: drawCard_def Let_def rooms_store_room state_after_def)
    qed
  qed
qed

lemma chooseOnomatopoeia_finally_rooms:
  "rooms (state_after (chooseOnomatopoeia_finally roomId a chosenNames s)) = rooms s
   \<or> rooms (state_after (chooseOnomatopoeia_finally roomId a chosenNames s))
       = delete_property (rooms s) roomId"
proof (cases "a < length (heap s)")
  case False
  then show ?thesis by (simp add: chooseOnomatopoeia_finally_def state_after_def)
next
  case True
  let ?r1 = "(heap s ! a)\<lparr>onomatopoeiaList := []\<rparr>"
  show ?thesis
  proof (cases "deck (heap s ! a) = []")
    case False
    with True show ?thesis
      by (simp add: chooseOnomatopoeia_finally_def Let_def state_after_def rooms_store_room)
  next
    case empty: True
    have st: "state_after (chooseOnomatopoeia_finally roomId a chosenNames s)
                = state_after (endGame roomId (store_room s a ?r1))"
      using True empty
      by (auto simp add: chooseOnomatopoeia_finally_def Let_def state_after_def
          split: sum.splits prod.splits failure.splits)
    show ?thesis
      unfolding st using endGame_rooms [of roomId "store_room s a ?r1"]
      by (simp add: rooms_store_room)
  qed
qed

text \<open>One event either appends the id of a new room or only removes ids.\<close>

lemma handle_keys:
  "(\<exists>rnd sid roomId playerName dn.
      e = CreateRoom rnd sid roomId playerName dn
      \<and> roomId \<notin> set (map fst (rooms s))
      \<and> map fst (rooms (handle readdir connected e s)) = map fst (rooms s) @ [roomId])
   \<or> (\<exists>ds. map fst (rooms (handle readdir connected e s))
              = filter (\<lambda>k. k \<notin> set ds) (map fst (rooms s)))"
proof (cases e)
  case (CreateRoom rnd sid roomId playerName dn)
  show ?thesis
  proof (cases "get_property (rooms s) roomId = Undefined \<and> readdir dn \<noteq> None")
    case True
    then have "map_of (rooms s) roomId = None" by (simp add: get_property_Undefined)
    then have "roomId \<notin> set (map fst (rooms s))" by (simp add: map_of_eq_None_iff)
    moreover have "map fst (rooms (handle readdir connected e s)) = map fst (rooms s) @ [roomId]"
      using True by (simp add: CreateRoom handle_def createRoom_keys)
    ultimately show ?thesis using CreateRoom by blast
  next
    case False
    then have "map fst (rooms (handle readdir connected e s)) = map fst (rooms s)"
      by (auto simp add: CreateRoom handle_def createRoom_keys)
    then have "map fst (rooms (handle readdir connected e s))
                 = filter (\<lambda>k. k \<notin> set []) (map fst (rooms s))" by simp
    then show ?thesis by blast
  qed
next
  case (JoinRoom sid roomId playerName)
  then show ?thesis
    using kept [OF joinRoom_rooms [of sid roomId playerName s]] by (simp add: handle_def)
next
  case (StartGame rnd roomId)
  then show ?thesis
    using kept [OF startGame_rooms [of rnd roomId s]] by (simp add: handle_def)
next
  case (DrawCard sid roomId)
  then show ?thesis
    using kept_or_deleted [OF drawCard_rooms [of sid roomId s]] by (simp add: handle_def)
next
  case (SubmitOnomatopoeia sid roomId word)
  then show ?thesis
    using kept [OF submitOnomatopoeia_rooms [of connected sid roomId word s]]
    by (simp add: handle_def)
next
  case (ChooseOnomatopoeia roomId word)
  then show ?thesis
    using kept [OF chooseOnomatopoeia_rooms [of roomId word s]]
    by (simp add: handle_def)
next
  case (Settled roomId a chosenNames)
  then show ?thesis
    using kept_or_deleted [OF chooseOnomatopoeia_finally_rooms [of roomId a chosenNames s]]
    by (simp add: handle_def)
next
  case (NextTurn roomId)
  then show ?thesis
    using kept [OF nextTurn_rooms [of roomId s]] by (simp add: handle_def)
next
  case (Disconnect sid)
  then show ?thesis
    using disconnect_keys [of sid s] by (simp add: handle_def)
qed
section \<open>The room list and the order of creation\<close>

lemma registered_keys: "registered s k = (k \<in> set (map fst (rooms s)))"
  by (simp add: registered_def)

text \<open>
  One event keeps the list of rooms in order of creation equal to the ids of the
  registry, in the registry's own order.
\<close>

lemma step_order:
  assumes "distinct (map fst (rooms s))"
  shows "filter (registered (handle readdir connected e s))
           (map fst (rooms s) @ created_by e s (handle readdir connected e s))
           = map fst (rooms (handle readdir connected e s))
         \<and> distinct (map fst (rooms (handle readdir connected e s)))"
proof -
  let ?s' = "handle readdir connected e s"
  let ?keys = "map fst (rooms s)"
  let ?keys' = "map fst (rooms ?s')"
  have reg: "registered ?s' = (\<lambda>k. k \<in> set ?keys')"
    by (simp add: registered_keys fun_eq_iff)
  from handle_keys [of e s readdir connected]
  consider (new) rnd sid roomId playerName dn where
      "e = CreateRoom rnd sid roomId playerName dn" "roomId \<notin> set ?keys"
      "?keys' = ?keys @ [roomId]"
    | (removed) ds where "?keys' = filter (\<lambda>k. k \<notin> set ds) ?keys"
    by blast
  then show ?thesis
  proof cases
    case new
    have cb: "created_by e s ?s' = [roomId]"
      using new by (simp add: created_by_def registered_keys)
    have "filter (\<lambda>k. k \<in> set ?keys') (?keys @ [roomId]) = ?keys @ [roomId]"
      unfolding new(3) by (rule filter_True) simp
    then have "filter (registered ?s') (?keys @ [roomId]) = ?keys'"
      by (simp only: reg new(3))
    then have "filter (registered ?s') (?keys @ created_by e s ?s') = ?keys'"
      by (simp only: cb)
    moreover have "distinct ?keys'"
      using assms new(2) by (simp add: new(3))
    ultimately show ?thesis by simp
  next
    case removed
    have sub: "set ?keys' \<subseteq> set ?keys" by (auto simp add: removed)
    have cb: "created_by e s ?s' = []"
    proof (cases e)
      case (CreateRoom rnd sid roomId playerName dn)
      have "\<not> (roomId \<in> set ?keys' \<and> roomId \<notin> set ?keys)" using sub by blast
      then show ?thesis by (auto simp add: CreateRoom created_by_def registered_keys)
    qed (simp_all add: created_by_def)
    have "filter (\<lambda>k. k \<in> set ?keys') ?keys = filter (\<lambda>k. k \<notin> set ds) ?keys"
      by (rule filter_cong) (auto simp add: removed)
    then have "filter (registered ?s') ?keys = ?keys'"
      by (simp only: reg removed)
    then have "filter (registered ?s') (?keys @ created_by e s ?s') = ?keys'"
      by (simp only: cb append_Nil2)
    moreover have "distinct ?keys'"
      using assms by (simp add: removed)
    ultimately show ?thesis by simp
  qed
qed

lemma run_order:
  assumes "distinct (map fst (rooms (fst acc)))" and "snd acc = map fst (rooms (fst acc))"
  shows "snd (run readdir connected es acc) = map fst (rooms (fst (run readdir connected es acc)))"
  using assms
proof (induction es arbitrary: acc)
  case Nil
  then show ?case by simp
next
  case (Cons e es)
  let ?s' = "handle readdir connected e (fst acc)"
  let ?acc = "(?s', filter (registered ?s') (snd acc @ created_by e (fst acc) ?s'))"
  note st = step_order [OF Cons.prems(1), of readdir connected e]
  have "distinct (map fst (rooms (fst ?acc)))" using st by simp
  moreover have "snd ?acc = map fst (rooms (fst ?acc))" using st by (simp add: Cons.prems(2))
  ultimately have "snd (run readdir connected es ?acc)
                     = map fst (rooms (fst (run readdir connected es ?acc)))"
    by (rule Cons.IH)
  then show ?case by (simp add: Let_def)
qed

lemma rooms_by_creation_registry:
  "rooms_by_creation readdir connected es = map fst (rooms (final_state readdir connected es))"
  unfolding rooms_by_creation_def final_state_def
  by (rule run_order) simp_all

text \<open>
  Claim C8, as stated, fails: room \<open>b\<close> is created before room \<open>1\<close>, and the room
  list names \<open>1\<close> first.
\<close>

theorem getRooms_insertion_order_counterexample:
  "rooms_by_creation deck_files all_connected room_b_then_room_1 = [''b'', ''1'']
   \<and> getRooms ''s3'' (final_state deck_files all_connected room_b_then_room_1)
       = [RoomsListTo ''s3'' [''1'', ''b'']]"
proof -
  have d: "deck_files ''animals'' = Some [''cat.png'', ''notes.txt'', ''dog.JPG'']"
    by (simp add: deck_files_def)
  have im: "is_image ''cat.png''" "\<not> is_image ''notes.txt''" "is_image ''dog.JPG''"
    by (simp_all add: is_image_def has_suffix_def to_lower_def Let_def)
  have sh: "shuffle pick_first [''cat.png'', ''dog.JPG''] = [''dog.JPG'', ''cat.png'']"
    by (simp add: shuffle_def swap_def pick_first_def)
  have create:
    "handle deck_files all_connected (CreateRoom pick_first sid roomId n ''animals'') s
       = \<lparr>rooms = rooms s @ [(roomId, length (heap s))], heap = heap s @ [fresh_room sid n]\<rparr>"
    if "get_property (rooms s) roomId = Undefined" for s sid roomId n
  proof -
    from that have "roomId \<notin> fst ` set (rooms s)"
      by (simp add: get_property_Undefined map_of_None_not_own)
    with that show ?thesis
      by (simp add: handle_def createRoom_def put_own_def d im sh fresh_room_def make_room_def
          make_player_def)
  qed
  have after_b:
    "handle deck_files all_connected (CreateRoom pick_first ''s1'' ''b'' ''ann'' ''animals'')
       \<lparr>rooms = [], heap = []\<rparr>
     = \<lparr>rooms = [(''b'', 0)], heap = [fresh_room ''s1'' ''ann'']\<rparr>"
    by (simp add: create get_property_def proto_names_def)
  have after_b_1:
    "handle deck_files all_connected (CreateRoom pick_first ''s2'' ''1'' ''bob'' ''animals'')
       \<lparr>rooms = [(''b'', 0)], heap = [fresh_room ''s1'' ''ann'']\<rparr>
     = \<lparr>rooms = [(''b'', 0), (''1'', 1)],
        heap = [fresh_room ''s1'' ''ann'', fresh_room ''s2'' ''bob'']\<rparr>"
    by (simp add: create get_property_def proto_names_def)
  have "run deck_files all_connected room_b_then_room_1 (\<lparr>rooms = [], heap = []\<rparr>, [])
          = (\<lparr>rooms = [(''b'', 0), (''1'', 1)],
              heap = [fresh_room ''s1'' ''ann'', fresh_room ''s2'' ''bob'']\<rparr>,
             [''b'', ''1''])"
    by (simp add: room_b_then_room_1_def after_b after_b_1 created_by_def registered_def)
  then show ?thesis
    by (simp add: rooms_by_creation_def final_state_def getRooms_def object_keys_def
        object_entries_def array_index_simps)
qed

text \<open>
  Claim C8, amended. After every sequence of events on a server that started empty
  (createRoom, the deletions of rooms by endGame and by disconnect, and every other
  handler), getRooms returns the ids of the registered rooms that are array indices
  first, in ascending numeric order, and the other ids after them in the insertion
  order of room creation; when no registered id is an array index this is exactly the
  insertion order of room creation.
\<close>

theorem getRooms_key_order:
  "getRooms sid (final_state readdir connected es) =
     [RoomsListTo sid
        (sort_key decimal_val (filter is_array_index (rooms_by_creation readdir connected es))
         @ filter (\<lambda>k. \<not> is_array_index k) (rooms_by_creation readdir connected es))]
   \<and> (list_all (\<lambda>k. \<not> is_array_index k) (rooms_by_creation readdir connected es)
        \<longrightarrow> getRooms sid (final_state readdir connected es)
              = [RoomsListTo sid (rooms_by_creation readdir connected es)])"
proof -
  let ?s = "final_state readdir connected es"
  have order: "rooms_by_creation readdir connected es = map fst (rooms ?s)"
    by (rule rooms_by_creation_registry)
  have "list_all (\<lambda>k. \<not> is_array_index k) (map fst (rooms ?s)) \<Longrightarrow>
        object_keys (rooms ?s) = map fst (rooms ?s)"
    by (simp add: object_keys_def object_entries_plain list_all_iff)
  then show ?thesis
    unfolding order by (auto simp add: getRooms_def object_keys_eq)
qed

theorem getRooms_key_order_witness:
  "rooms_by_creation deck_files all_connected rooms_b_c_a_without_c = [''b'', ''a'']
   \<and> list_all (\<lambda>k. \<not> is_array_index k)
         (rooms_by_creation deck_files all_connected rooms_b_c_a_without_c)
   \<and> getRooms ''s4'' (final_state deck_files all_connected rooms_b_c_a_without_c)
       = [RoomsListTo ''s4'' [''b'', ''a'']]"
proof -
  have d: "deck_files ''animals'' = Some [''cat.png'', ''notes.txt'', ''dog.JPG'']"
    by (simp add: deck_files_def)
  have im: "is_image ''cat.png''" "\<not> is_image ''notes.txt''" "is_image ''dog.JPG''"
    by (simp_all add: is_image_def has_suffix_def to_lower_def Let_def)
  have sh: "shuffle pick_first [''cat.png'', ''dog.JPG''] = [''dog.JPG'', ''cat.png'']"
    by (simp add: shuffle_def swap_def pick_first_def)
  have create:
    "handle deck_files all_connected (CreateRoom pick_first sid roomId n ''animals'') s
       = \<lparr>rooms = rooms s @ [(roomId, length (heap s))], heap = heap s @ [fresh_room sid n]\<rparr>"
    if "get_property (rooms s) roomId = Undefined" for s sid roomId n
  proof -
    from that have "roomId \<notin> fst ` set (rooms s)"
      by (simp add: get_property_Undefined map_of_None_not_own)
    with that show ?thesis
      by (simp add: handle_def createRoom_def put_own_def d im sh fresh_room_def make_room_def
          make_player_def)
  qed
  have after_b:
    "handle deck_files all_connected (CreateRoom pick_first ''s1'' ''b'' ''ann'' ''animals'')
       \<lparr>rooms = [], heap = []\<rparr>
     = \<lparr>rooms = [(''b'', 0)], heap = [fresh_room ''s1'' ''ann'']\<rparr>"
    by (simp add: create get_property_def proto_names_def)
  have after_b_c:
    "handle deck_files all_connected (CreateRoom pick_first ''s2'' ''c'' ''bob'' ''animals'')
       \<lparr>rooms = [(''b'', 0)], heap = [fresh_room ''s1'' ''ann'']\<rparr>
     = \<lparr>rooms = [(''b'', 0), (''c'', Suc 0)],
        heap = [fresh_room ''s1'' ''ann'', fresh_room ''s2'' ''bob'']\<rparr>"
    by (simp add: create get_property_def proto_names_def)
  have after_b_c_a:
    "handle deck_files all_connected (CreateRoom pick_first ''s3'' ''a'' ''cy'' ''animals'')
       \<lparr>rooms = [(''b'', 0), (''c'', Suc 0)],
        heap = [fresh_room ''s1'' ''ann'', fresh_room ''s2'' ''bob'']\<rparr>
     = \<lparr>rooms = [(''b'', 0), (''c'', Suc 0), (''a'', 2)],
        heap = [fresh_room ''s1'' ''ann'', fresh_room ''s2'' ''bob'', fresh_room ''s3'' ''cy'']\<rparr>"
    by (simp add: create get_property_def proto_names_def)
  have keys: "object_keys [(''b'', x), (''c'', y), (''a'', z)] = [''b'', ''c'', ''a'']"
    for x y z :: nat
    by (simp add: object_keys_def object_entries_def array_index_simps)
  have after_s2_left:
    "handle deck_files all_connected (Disconnect ''s2'')
       \<lparr>rooms = [(''b'', 0), (''c'', Suc 0), (''a'', 2)],
        heap = [fresh_room ''s1'' ''ann'', fresh_room ''s2'' ''bob'', fresh_room ''s3'' ''cy'']\<rparr>
     = \<lparr>rooms = [(''b'', 0), (''a'', 2)],
        heap = [fresh_room ''s1'' ''ann'', (fresh_room ''s2'' ''bob'')\<lparr>players := []\<rparr>,
                fresh_room ''s3'' ''cy'']\<rparr>"
    by (simp add: handle_def disconnect_def keys disconnect_room_def find_room_def
        get_property_def store_room_def delete_property_def fresh_room_def make_room_def
        make_player_def Let_def)
  have "run deck_files all_connected rooms_b_c_a_without_c (\<lparr>rooms = [], heap = []\<rparr>, [])
          = (\<lparr>rooms = [(''b'', 0), (''a'', 2)],
              heap = [fresh_room ''s1'' ''ann'', (fresh_room ''s2'' ''bob'')\<lparr>players := []\<rparr>,
                      fresh_room ''s3'' ''cy'']\<rparr>,
             [''b'', ''a''])"
    by (simp add: rooms_b_c_a_without_c_def after_b after_b_c after_b_c_a after_s2_left
        created_by_def registered_def)
  then have order: "rooms_by_creation deck_files all_connected rooms_b_c_a_without_c = [''b'', ''a'']"
    by (simp add: rooms_by_creation_def)
  have plain: "list_all (\<lambda>k. \<not> is_array_index k)
                 (rooms_by_creation deck_files all_connected rooms_b_c_a_without_c)"
    unfolding order by (simp add: array_index_simps)
  from getRooms_key_order [of "''s4''" deck_files all_connected rooms_b_c_a_without_c,
      THEN conjunct2, rule_format, OF plain]
  show ?thesis using order plain by simp
qed

end
